theory Spec2Isabelle
  imports Complex_Main
begin

unbundle bit_operations_syntax

section \<open>The PCO camera driver (instrumental/drivers/cameras/pco.py)\<close>

text \<open>
  The module is Python 2 (it uses the \<^verbatim>\<open>buffer\<close> builtin and \<^verbatim>\<open>time.clock\<close>), so
  \<^verbatim>\<open>/\<close> on two integers is floor division (\<open>div\<close> on \<open>int\<close>) and \<^verbatim>\<open>%\<close> is \<open>mod\<close> on
  \<open>int\<close>, raising \<^verbatim>\<open>ZeroDivisionError\<close> for a zero divisor.

  The vendor SDK (\<^verbatim>\<open>SC2_Cam.dll\<close>), the Windows wait primitives and the clock are outside
  the program. They are modelled as an opaque, deterministic environment: every call that
  leaves the program is appended to a history, and what the environment answers is a
  function of the history up to and including that call. Theorems are stated for every
  such environment, so they cover whatever the hardware does in the background.
\<close>

subsection \<open>Data\<close>

text \<open>\<^verbatim>\<open>class BufferInfo\<close>: driver-assigned number, base address, completion event handle.\<close>

record BufferInfo =
  num :: int
  address :: int
  event :: int

text \<open>The two fields of \<^verbatim>\<open>PCO_Description\<close> that \<^verbatim>\<open>_set_ROI\<close> reads.\<close>

record PCO_Description =
  wRoiHorStepsDESC :: int
  wRoiVertStepsDESC :: int

text \<open>The field of \<^verbatim>\<open>PCO_SC2_CL_TRANSFER_PARAM\<close> that \<^verbatim>\<open>_data_depth\<close> reads.\<close>

record PCO_SC2_CL_TRANSFER_PARAM =
  DataFormat :: int

text \<open>
  Exceptions. A message is kept structured instead of formatted: \<open>ErrorText c\<close> is the
  text that \<^verbatim>\<open>get_error_text(c)\<close> obtains from the SDK for the code \<open>c\<close>; the others are
  the literal messages of the module with the values formatted into them.
\<close>

datatype message =
    ErrorText int
  | RoiXStep int
  | RoiYStep int
  | RoiXSymmetric
  | RoiYSymmetric
  | RoiOutOfRange int int int int
  | NoQueuedBuffers
  | FailedToGrabImage
  | UnrecognizedDataformat int

text \<open>
  \<open>Error code msg\<close> is \<^verbatim>\<open>instrumental.errors.Error\<close>, with its \<^verbatim>\<open>code\<close> attribute when
  \<^verbatim>\<open>NicePCO._err_wrap\<close> has set one; \<open>Exception msg\<close> is a plain Python \<^verbatim>\<open>Exception\<close>.
\<close>

datatype exn =
    Error "int option" message
  | Exception message
  | TimeoutError
  | ZeroDivisionError
  | AttributeError
  | ValueError

text \<open>Every call that leaves the program, with the arguments passed.\<close>

datatype call =
    OpenCameraEx int
  | CloseCamera
  | GetSizes
  | SetROI int int int int
  | GetROI
  | GetCameraDescription
  | GetTransferParameter
  | SetTransferParametersAuto
  | SetRecordingState int
  | SetDelayExposureTime int int int int
  | SetFrameRate int int int
  | ArmCamera
  | SetBinning int int
  | AllocateBuffer int int
  | CamLinkSetImageParameters int int
  | FreeBuffer int
  | CancelImages
  | AddBufferEx int int int int int int
  | GetBufferStatus int
  | ForceTrigger
  | WaitForSingleObject int int
  | ResetEvent int
  | Clock

type_synonym history = "call list"

text \<open>
  The environment: the constants of the SDK header (\<^verbatim>\<open>_pco/clean.h\<close> is not part of the
  sources, so they are parameters) and the answers to calls. Each answer function is
  applied to the history that ends with the call being answered.
\<close>

record sdk =
  PCO_CL_DATAFORMAT_MASK :: int
  PCO_CL_DATAFORMAT_5x16 :: int
  PCO_CL_DATAFORMAT_5x12L :: int
  PCO_CL_DATAFORMAT_5x12 :: int
  PCO_CL_DATAFORMAT_5x12R :: int
  PCO_CL_DATAFORMAT_10x8 :: int
  ret_code :: "history \<Rightarrow> int"
  out_open :: "history \<Rightarrow> int \<times> int"
  out_sizes :: "history \<Rightarrow> int \<times> int \<times> int \<times> int"
  out_roi :: "history \<Rightarrow> int \<times> int \<times> int \<times> int"
  out_desc :: "history \<Rightarrow> PCO_Description"
  out_transfer :: "history \<Rightarrow> PCO_SC2_CL_TRANSFER_PARAM"
  out_alloc :: "history \<Rightarrow> int \<times> int \<times> int"
  out_status :: "history \<Rightarrow> int \<times> int"
  wait_ret :: "history \<Rightarrow> int"
  clock_val :: "history \<Rightarrow> real"

text \<open>
  \<^verbatim>\<open>class PCO_Camera\<close>: the attributes of a camera object. An attribute that \<^verbatim>\<open>__init__\<close> does not
  assign (\<^verbatim>\<open>_cached_sizes\<close>, \<^verbatim>\<open>_cached_transfer_param\<close>, \<^verbatim>\<open>last_buffer\<close>) is an option:
  \<open>None\<close> is "the object has no such attribute", and reading it raises
  \<^verbatim>\<open>AttributeError\<close>. \<open>cached_cam_desc = None\<close> is the Python value \<^verbatim>\<open>None\<close>.
  The queue holds references to the \<^verbatim>\<open>BufferInfo\<close> objects of the pool; these objects are
  never mutated, so they are modelled by value.
\<close>

record PCO_Camera =
  buffers :: "BufferInfo list"
  queue :: "BufferInfo list"
  buf_size :: int
  shutter :: "string option"
  cam_num :: int
  interface_type :: int
  sizes_changed :: bool
  transfer_param_changed :: bool
  cached_cam_desc :: "PCO_Description option"
  cached_sizes :: "(int \<times> int \<times> int \<times> int) option"
  cached_transfer_param :: "PCO_SC2_CL_TRANSFER_PARAM option"
  last_buffer :: "BufferInfo option"

subsection \<open>Methods as state transformers\<close>

text \<open>
  A method takes the object and the history and returns either the exception it raises
  or its value, with the object and the history as it leaves them.
\<close>

type_synonym 'a action = "PCO_Camera \<times> history \<Rightarrow> (exn + 'a) \<times> PCO_Camera \<times> history"

definition ret :: "'a \<Rightarrow> 'a action" where
  "ret x = (\<lambda>\<sigma>. (Inr x, \<sigma>))"

definition raise :: "exn \<Rightarrow> 'a action" where
  "raise e = (\<lambda>\<sigma>. (Inl e, \<sigma>))"

text \<open>Sequencing: the second statement runs only if the first raised nothing.\<close>

definition seq :: "'a action \<Rightarrow> ('a \<Rightarrow> 'b action) \<Rightarrow> 'b action" where
  "seq m f = (\<lambda>\<sigma>. case m \<sigma> of (Inl e, \<sigma>') \<Rightarrow> (Inl e, \<sigma>') | (Inr x, \<sigma>') \<Rightarrow> f x \<sigma>')"

definition get_attr :: "(PCO_Camera \<Rightarrow> 'a) \<Rightarrow> 'a action" where
  "get_attr f = (\<lambda>(s, h). (Inr (f s), (s, h)))"

definition set_attr :: "(PCO_Camera \<Rightarrow> PCO_Camera) \<Rightarrow> unit action" where
  "set_attr upd = (\<lambda>(s, h). (Inr (), (upd s, h)))"

text \<open>\<^verbatim>\<open>for x in xs: body(x)\<close>; an exception leaves the loop.\<close>

fun for_each :: "'x list \<Rightarrow> ('x \<Rightarrow> unit action) \<Rightarrow> unit action" where
  "for_each [] body = ret ()"
| "for_each (x # xs) body = seq (body x) (\<lambda>_. for_each xs body)"

text \<open>
  Modelled from the spec: the call wrapper of \<^verbatim>\<open>NiceLib\<close> (\<^verbatim>\<open>instrumental.drivers.util\<close>)
  is not part of the sources. Per the spec (section 6) every driver call returns an integer
  status, and a non-zero status is raised as a driver error; \<^verbatim>\<open>NicePCO._err_wrap\<close>, which
  is in the sources, raises \<^verbatim>\<open>Error(get_error_text(code))\<close> with \<^verbatim>\<open>e.code = code\<close>.
  On status zero the wrapper returns the call's output arguments.
\<close>

definition plib :: "sdk \<Rightarrow> call \<Rightarrow> (history \<Rightarrow> 'a) \<Rightarrow> 'a action" where
  "plib drv c out = (\<lambda>(s, h).
     let h' = h @ [c]; code = ret_code drv h'
     in if code \<noteq> 0 then (Inl (Error (Some code) (ErrorText code)), (s, h'))
        else (Inr (out h'), (s, h')))"

text \<open>
  A call that goes to the library directly, with no check of the status:
  \<^verbatim>\<open>GetTransferParameter\<close>, \<^verbatim>\<open>SetTransferParametersAuto\<close>, the two \<^verbatim>\<open>winlib\<close> functions
  and \<^verbatim>\<open>clock()\<close>. How the foreign-function layer converts arguments to C types is
  not modelled: integers are passed as they are.
\<close>

definition raw_call :: "call \<Rightarrow> (history \<Rightarrow> 'a) \<Rightarrow> 'a action" where
  "raw_call c out = (\<lambda>(s, h). (Inr (out (h @ [c])), (s, h @ [c])))"

definition WAIT_OBJECT_0 :: int where
  "WAIT_OBJECT_0 = 0x00"

definition WAIT_TIMEOUT :: int where
  "WAIT_TIMEOUT = 0x102"

text \<open>\<^verbatim>\<open>_get_camera_description\<close>\<close>

definition get_camera_description :: "sdk \<Rightarrow> PCO_Description action" where
  "get_camera_description drv =
     seq (get_attr cached_cam_desc) (\<lambda>c.
       case c of
         Some d \<Rightarrow> ret d
       | None \<Rightarrow>
           seq (plib drv GetCameraDescription (out_desc drv)) (\<lambda>d.
           seq (set_attr (\<lambda>s. s\<lparr>cached_cam_desc := Some d\<rparr>)) (\<lambda>_.
           ret d)))"

text \<open>\<^verbatim>\<open>_get_sizes\<close>: the lazy cache with its dirty flag.\<close>

definition get_sizes :: "sdk \<Rightarrow> (int \<times> int \<times> int \<times> int) action" where
  "get_sizes drv =
     seq (get_attr sizes_changed) (\<lambda>changed.
     seq (if changed
          then seq (plib drv GetSizes (out_sizes drv)) (\<lambda>sz.
               set_attr (\<lambda>s. s\<lparr>cached_sizes := Some sz, sizes_changed := False\<rparr>))
          else ret ()) (\<lambda>_.
     seq (get_attr cached_sizes) (\<lambda>c.
       case c of None \<Rightarrow> raise AttributeError | Some sz \<Rightarrow> ret sz)))"

text \<open>\<^verbatim>\<open>_get_transfer_parameter\<close>\<close>

definition get_transfer_parameter :: "sdk \<Rightarrow> PCO_SC2_CL_TRANSFER_PARAM action" where
  "get_transfer_parameter drv =
     seq (get_attr transfer_param_changed) (\<lambda>changed.
     seq (if changed
          then seq (raw_call GetTransferParameter (out_transfer drv)) (\<lambda>p.
               set_attr (\<lambda>s. s\<lparr>cached_transfer_param := Some p,
                                  transfer_param_changed := False\<rparr>))
          else ret ()) (\<lambda>_.
     seq (get_attr cached_transfer_param) (\<lambda>c.
       case c of None \<Rightarrow> raise AttributeError | Some p \<Rightarrow> ret p)))"

text \<open>
  The dictionary literal of \<^verbatim>\<open>_data_depth\<close>; a later entry replaces an earlier one with
  the same key, as in Python.
\<close>

definition depth_map :: "sdk \<Rightarrow> int \<rightharpoonup> int" where
  "depth_map drv = Map.empty
     (PCO_CL_DATAFORMAT_5x16 drv \<mapsto> 16,
      PCO_CL_DATAFORMAT_5x12L drv \<mapsto> 16,
      PCO_CL_DATAFORMAT_5x12 drv \<mapsto> 12,
      PCO_CL_DATAFORMAT_5x12R drv \<mapsto> 12,
      PCO_CL_DATAFORMAT_10x8 drv \<mapsto> 8)"

text \<open>\<^verbatim>\<open>_data_depth\<close>\<close>

definition data_depth :: "sdk \<Rightarrow> int action" where
  "data_depth drv =
     seq (get_transfer_parameter drv) (\<lambda>info.
       let dataformat = DataFormat info AND PCO_CL_DATAFORMAT_MASK drv
       in case depth_map drv dataformat of
            None \<Rightarrow> raise (Exception (UnrecognizedDataformat dataformat))
          | Some depth \<Rightarrow> ret depth)"

text \<open>\<^verbatim>\<open>_frame_size\<close>: \<^verbatim>\<open>(width * height * self._data_depth()) / 16 * 2\<close>\<close>

definition frame_size :: "sdk \<Rightarrow> int action" where
  "frame_size drv =
     seq (get_sizes drv) (\<lambda>(width, height, _, _).
     seq (data_depth drv) (\<lambda>depth.
     ret ((width * height * depth) div 16 * 2)))"

text \<open>\<^verbatim>\<open>_free_buffers\<close>\<close>

definition free_buffers :: "sdk \<Rightarrow> unit action" where
  "free_buffers drv =
     seq (get_attr buffers) (\<lambda>bufs.
     seq (for_each bufs (\<lambda>buf. plib drv (FreeBuffer (num buf)) (\<lambda>_. ()))) (\<lambda>_.
     set_attr (\<lambda>s. s\<lparr>buffers := []\<rparr>)))"

text \<open>\<^verbatim>\<open>_clear_queue\<close>\<close>

definition clear_queue :: "sdk \<Rightarrow> unit action" where
  "clear_queue drv =
     seq (set_attr (\<lambda>s. s\<lparr>queue := []\<rparr>)) (\<lambda>_.
     plib drv CancelImages (\<lambda>_. ()))"

text \<open>\<^verbatim>\<open>_push_on_queue\<close>\<close>

definition push_on_queue :: "sdk \<Rightarrow> BufferInfo \<Rightarrow> unit action" where
  "push_on_queue drv buf =
     seq (get_sizes drv) (\<lambda>(width, height, _, _).
     seq (data_depth drv) (\<lambda>depth.
     seq (plib drv (AddBufferEx 0 0 (num buf) width height depth) (\<lambda>_. ())) (\<lambda>_.
     set_attr (\<lambda>s. s\<lparr>queue := queue s @ [buf]\<rparr>))))"

text \<open>
  \<^verbatim>\<open>wait_for_frame\<close>. The argument is the timeout in milliseconds, as the \<^verbatim>\<open>unit_mag\<close>
  decorator hands it to the body. \<^verbatim>\<open>int(timeout)\<close> of a non-negative number is its floor.
  The pop of line 502 and what follows it are reached from the signalled branch only (the
  other two return or raise), so they are written inside that branch.
\<close>

definition wait_for_frame :: "sdk \<Rightarrow> real \<Rightarrow> bool action" where
  "wait_for_frame drv timeout =
     seq (get_attr queue) (\<lambda>q.
       if q = [] then raise (Exception NoQueuedBuffers)
       else
         let timeout' = max 0 timeout;
             buf = hd q
         in seq (raw_call (WaitForSingleObject (event buf) \<lfloor>timeout'\<rfloor>) (wait_ret drv)) (\<lambda>r.
            if r = WAIT_OBJECT_0 then
              seq (plib drv (GetBufferStatus (num buf)) (out_status drv)) (\<lambda>(dll_status, drv_status).
              if drv_status \<noteq> 0 then raise (Exception (ErrorText drv_status))
              else
                seq (raw_call (ResetEvent (event buf)) (\<lambda>_. ())) (\<lambda>_.
                seq (set_attr (\<lambda>s. s\<lparr>last_buffer := Some (hd (queue s)),
                                       queue := tl (queue s)\<rparr>)) (\<lambda>_.
                seq (get_attr shutter) (\<lambda>sh.
                seq (if sh = Some ''continuous'' then push_on_queue drv buf else ret ()) (\<lambda>_.
                ret True)))))
            else if r = WAIT_TIMEOUT then ret False
            else raise (Error None FailedToGrabImage)))"

text \<open>\<^verbatim>\<open>_allocate_buffers\<close>; \<^verbatim>\<open>range(nbufs)\<close> has \<open>nat nbufs\<close> elements.\<close>

definition allocate_buffers :: "sdk \<Rightarrow> int option \<Rightarrow> unit action" where
  "allocate_buffers drv nbufs_arg =
     seq (get_attr (\<lambda>s. s)) (\<lambda>self.
       let nbufs =
             (case nbufs_arg of
                Some n \<Rightarrow> n
              | None \<Rightarrow>
                  if length (buffers self) > 1 then int (length (buffers self))
                  else if shutter self = Some ''continuous'' then 2
                  else 1)
       in seq (plib drv (SetRecordingState 0) (\<lambda>_. ())) (\<lambda>_.
          seq (clear_queue drv) (\<lambda>_.
          seq (free_buffers drv) (\<lambda>_.
          seq (frame_size drv) (\<lambda>fs.
          seq (set_attr (\<lambda>s. s\<lparr>buf_size := fs\<rparr>)) (\<lambda>_.
          for_each [0..<nat nbufs] (\<lambda>i.
            seq (get_attr buf_size) (\<lambda>sz.
            seq (plib drv (AllocateBuffer (- 1) sz) (out_alloc drv)) (\<lambda>(bufnum, buf_p, ev).
            set_attr (\<lambda>s. s\<lparr>buffers := buffers s
                                 @ [\<lparr>num = bufnum, address = buf_p, event = ev\<rparr>]\<rparr>))))))))))"

text \<open>The properties \<^verbatim>\<open>width\<close>, \<^verbatim>\<open>height\<close>, \<^verbatim>\<open>max_width\<close> and \<^verbatim>\<open>max_height\<close>.\<close>

definition width :: "sdk \<Rightarrow> int action" where
  "width drv = seq (get_sizes drv) (\<lambda>(w, _, _, _). ret w)"

definition height :: "sdk \<Rightarrow> int action" where
  "height drv = seq (get_sizes drv) (\<lambda>(_, ht, _, _). ret ht)"

definition max_width :: "sdk \<Rightarrow> int action" where
  "max_width drv = seq (get_sizes drv) (\<lambda>(_, _, mw, _). ret mw)"

definition max_height :: "sdk \<Rightarrow> int action" where
  "max_height drv = seq (get_sizes drv) (\<lambda>(_, _, _, mh). ret mh)"

text \<open>\<^verbatim>\<open>try: m  except Exception as e: handler(e)\<close>\<close>

definition catch :: "'a action \<Rightarrow> (exn \<Rightarrow> 'a action) \<Rightarrow> 'a action" where
  "catch m handler = (\<lambda>\<sigma>. case m \<sigma> of (Inl e, \<sigma>') \<Rightarrow> handler e \<sigma>' | (Inr x, \<sigma>') \<Rightarrow> (Inr x, \<sigma>'))"

text \<open>
  \<^verbatim>\<open>_set_ROI\<close>. \<^verbatim>\<open>x0 % hstep\<close> is evaluated first, so a zero step raises
  \<^verbatim>\<open>ZeroDivisionError\<close> whatever the coordinates are. The two symmetry checks are not
  guarded by any mode of the device.
\<close>

definition set_ROI :: "sdk \<Rightarrow> int \<Rightarrow> int \<Rightarrow> int \<Rightarrow> int \<Rightarrow> unit action" where
  "set_ROI drv x0 y0 x1 y1 =
     seq (get_camera_description drv) (\<lambda>desc.
       let hstep = wRoiHorStepsDESC desc;
           vstep = wRoiVertStepsDESC desc
       in if hstep = 0 then raise ZeroDivisionError
          else if x0 mod hstep \<noteq> 0 \<or> x1 mod hstep \<noteq> 0
            then raise (Error None (RoiXStep hstep))
          else if vstep = 0 then raise ZeroDivisionError
          else if y0 mod vstep \<noteq> 0 \<or> y1 mod vstep \<noteq> 0
            then raise (Error None (RoiYStep vstep))
          else
            seq (max_width drv) (\<lambda>mw.
              let cx = mw div 2
              in if cx - x0 \<noteq> x1 - cx then raise (Error None RoiXSymmetric)
                 else
                   seq (max_height drv) (\<lambda>mh.
                     let cy = mh div 2
                     in if cy - y0 \<noteq> y1 - cy then raise (Error None RoiYSymmetric)
                        else
                          seq (catch (plib drv (SetROI (x0 + 1) (y0 + 1) x1 y1) (\<lambda>_. ()))
                                 (\<lambda>e. case e of
                                    Error code msg \<Rightarrow>
                                      if code = Some 0xA00A3001
                                      then raise (Error None (RoiOutOfRange x0 y0 x1 y1))
                                      else raise e
                                  | _ \<Rightarrow> raise e)) (\<lambda>_.
                          set_attr (\<lambda>s. s\<lparr>sizes_changed := True\<rparr>)))))"

text \<open>\<^verbatim>\<open>_get_ROI\<close>\<close>

definition get_ROI :: "sdk \<Rightarrow> (int \<times> int \<times> int \<times> int) action" where
  "get_ROI drv =
     seq (plib drv GetROI (out_roi drv)) (\<lambda>(x0, y0, x1, y1).
     ret (x0 - 1, y0 - 1, x1, y1))"

text \<open>\<^verbatim>\<open>_set_centered_ROI\<close>\<close>

definition set_centered_ROI :: "sdk \<Rightarrow> int \<Rightarrow> int \<Rightarrow> unit action" where
  "set_centered_ROI drv w ht =
     seq (get_sizes drv) (\<lambda>(_, _, mw, mh).
       let x0 = (mw - w) div 2;
           y0 = (mh - ht) div 2
       in set_ROI drv x0 y0 (x0 + w) (y0 + ht))"

text \<open>
  A frame handed to the caller: the buffer address it views, its shape
  \<open>(height, width)\<close>, and whether the bytes were copied. The samples themselves are not
  modelled. \<^verbatim>\<open>np.frombuffer(buf, np.uint16).reshape((height, width))\<close> raises
  \<^verbatim>\<open>ValueError\<close> unless the buffer holds exactly \<open>height * width\<close> 16-bit samples.
\<close>

record image =
  img_address :: int
  img_shape :: "int \<times> int"
  img_copied :: bool

definition to_array :: "int \<Rightarrow> int \<Rightarrow> bool \<Rightarrow> int \<Rightarrow> int \<Rightarrow> image action" where
  "to_array addr nbytes copy ht wd =
     (if nbytes div 2 = ht * wd
      then ret \<lparr>img_address = addr, img_shape = (ht, wd), img_copied = copy\<rparr>
      else raise ValueError)"

text \<open>\<^verbatim>\<open>latest_frame\<close>: reading \<^verbatim>\<open>self.last_buffer\<close> is its first statement.\<close>

definition latest_frame :: "sdk \<Rightarrow> bool \<Rightarrow> image action" where
  "latest_frame drv copy =
     seq (get_attr last_buffer) (\<lambda>lb.
       case lb of
         None \<Rightarrow> raise AttributeError
       | Some buf_info \<Rightarrow>
           seq (frame_size drv) (\<lambda>fs.
           seq (get_sizes drv) (\<lambda>(wd, ht, _, _).
           to_array (address buf_info) fs copy ht wd)))"

text \<open>
  \<^verbatim>\<open>get_captured_image\<close>. One pass of the \<^verbatim>\<open>while self.queue\<close> loop: the timeout is in
  milliseconds and the clock in seconds, as the unit decorators arrange.
\<close>

definition drain_step ::
    "sdk \<Rightarrow> real \<Rightarrow> bool \<Rightarrow> real \<Rightarrow> int \<Rightarrow> int \<Rightarrow> int \<Rightarrow> image list \<Rightarrow> image list action" where
  "drain_step drv timeout copy start_time fs ht wd image_arrs =
     seq (get_attr (\<lambda>s. hd (queue s))) (\<lambda>buf.
     seq (raw_call Clock (clock_val drv)) (\<lambda>now.
       let elapsed_time = now - start_time
       in seq (wait_for_frame drv (timeout - elapsed_time * 1000)) (\<lambda>frame_ready.
          if \<not> frame_ready then raise TimeoutError
          else
            seq (to_array (address buf) fs copy ht wd) (\<lambda>array.
            ret (image_arrs @ [array])))))"

text \<open>
  The loop itself. In continuous mode every retrieved buffer is queued again, so the loop
  need not end: it is given fuel, the number of passes it may make, and \<open>None\<close> is
  "still looping when the fuel ran out".
\<close>

fun drain ::
    "sdk \<Rightarrow> nat \<Rightarrow> real \<Rightarrow> bool \<Rightarrow> real \<Rightarrow> int \<Rightarrow> int \<Rightarrow> int \<Rightarrow> image list \<Rightarrow> PCO_Camera \<times> history
      \<Rightarrow> ((exn + image list) \<times> PCO_Camera \<times> history) option" where
  "drain drv 0 timeout copy start_time fs ht wd image_arrs \<sigma> =
     (if queue (fst \<sigma>) = [] then Some (Inr image_arrs, \<sigma>) else None)"
| "drain drv (Suc fuel) timeout copy start_time fs ht wd image_arrs \<sigma> =
     (if queue (fst \<sigma>) = [] then Some (Inr image_arrs, \<sigma>)
      else
        case drain_step drv timeout copy start_time fs ht wd image_arrs \<sigma> of
          (Inl e, \<sigma>') \<Rightarrow> Some (Inl e, \<sigma>')
        | (Inr image_arrs', \<sigma>') \<Rightarrow> drain drv fuel timeout copy start_time fs ht wd image_arrs' \<sigma>')"

text \<open>The \<^verbatim>\<open>finally\<close> block: stop recording, then clean up the queue.\<close>

definition cleanup :: "sdk \<Rightarrow> unit action" where
  "cleanup drv =
     seq (plib drv (SetRecordingState 0) (\<lambda>_. ())) (\<lambda>_.
     clear_queue drv)"

datatype captured = Single image | Tuple "image list"

text \<open>
  The two size queries come before the \<^verbatim>\<open>try\<close>. An exception raised by the \<^verbatim>\<open>finally\<close>
  block replaces the one of the \<^verbatim>\<open>try\<close> block, as in Python.
\<close>

definition get_captured_image ::
    "sdk \<Rightarrow> nat \<Rightarrow> real \<Rightarrow> bool \<Rightarrow> PCO_Camera \<times> history \<Rightarrow> ((exn + captured) \<times> PCO_Camera \<times> history) option" where
  "get_captured_image drv fuel timeout copy \<sigma> =
     (case seq (get_sizes drv) (\<lambda>(wd, ht, _, _).
           seq (frame_size drv) (\<lambda>fs. ret (wd, ht, fs))) \<sigma> of
        (Inl e, \<sigma>1) \<Rightarrow> Some (Inl e, \<sigma>1)
      | (Inr (wd, ht, fs), \<sigma>1) \<Rightarrow>
          (case raw_call Clock (clock_val drv) \<sigma>1 of
             (Inl e, \<sigma>2) \<Rightarrow> Some (Inl e, \<sigma>2)
           | (Inr start_time, \<sigma>2) \<Rightarrow>
               (case drain drv fuel timeout copy start_time fs ht wd [] \<sigma>2 of
                  None \<Rightarrow> None
                | Some (r, \<sigma>3) \<Rightarrow>
                    (case cleanup drv \<sigma>3 of
                       (Inl e, \<sigma>4) \<Rightarrow> Some (Inl e, \<sigma>4)
                     | (Inr _, \<sigma>4) \<Rightarrow>
                         (case r of
                            Inl e \<Rightarrow> Some (Inl e, \<sigma>4)
                          | Inr image_arrs \<Rightarrow>
                              Some (Inr (if length image_arrs = 1 then Single (hd image_arrs)
                                         else Tuple image_arrs), \<sigma>4))))))"

subsection \<open>The session controller\<close>

text \<open>\<^verbatim>\<open>int(round(x))\<close> in Python 2: halves are rounded away from zero.\<close>

definition py_round :: "real \<Rightarrow> int" where
  "py_round x = (if 0 \<le> x then \<lfloor>x + 1 / 2\<rfloor> else - \<lfloor>- x + 1 / 2\<rfloor>)"

text \<open>
  The keyword arguments as \<^verbatim>\<open>_handle_kwds\<close> (a method of the base class, not part of the
  sources) leaves them; the exposure time is in nanoseconds.
\<close>

record kwds =
  kw_vbin :: int
  kw_hbin :: int
  kw_left :: int
  kw_top :: int
  kw_right :: int
  kw_bot :: int
  kw_exposure_time :: real
  kw_n_frames :: "int option"

text \<open>\<^verbatim>\<open>_set_binning\<close>\<close>

definition set_binning :: "sdk \<Rightarrow> int \<Rightarrow> int \<Rightarrow> unit action" where
  "set_binning drv hbin vbin = plib drv (SetBinning hbin vbin) (\<lambda>_. ())"

text \<open>\<^verbatim>\<open>_set_delay_exposure_time\<close>, both durations in nanoseconds.\<close>

definition set_delay_exposure_time :: "sdk \<Rightarrow> real \<Rightarrow> real \<Rightarrow> unit action" where
  "set_delay_exposure_time drv delay exposure =
     (let delay_ns = py_round delay;
          exposure_ns = py_round exposure
      in plib drv (SetDelayExposureTime delay_ns exposure_ns 0 0) (\<lambda>_. ()))"

text \<open>
  \<^verbatim>\<open>_set_framerate\<close> with its default priority \<^verbatim>\<open>'auto'\<close> (\<^verbatim>\<open>FrameRateMode.auto = 0\<close>);
  the frame rate is in mHz, the exposure in nanoseconds.
\<close>

definition set_framerate :: "sdk \<Rightarrow> real \<Rightarrow> real \<Rightarrow> unit action" where
  "set_framerate drv framerate exposure =
     (let exposure_ns = py_round exposure;
          framerate_mHz = py_round framerate
      in seq (plib drv ArmCamera (\<lambda>_. ())) (\<lambda>_.
         plib drv (SetFrameRate 0 framerate_mHz exposure_ns) (\<lambda>_. ())))"

text \<open>
  \<^verbatim>\<open>__init__\<close>, as an action on the object under construction. The bookkeeping of
  \<^verbatim>\<open>open_cameras\<close> and \<^verbatim>\<open>_param_dict\<close> touches no attribute modelled here.
\<close>

definition init_body :: "sdk \<Rightarrow> int \<Rightarrow> unit action" where
  "init_body drv n =
     seq (set_attr (\<lambda>s. s\<lparr>buffers := [], queue := [], buf_size := 0, shutter := None\<rparr>)) (\<lambda>_.
     seq (plib drv (OpenCameraEx n) (out_open drv)) (\<lambda>(camera_number, interface).
     seq (set_attr (\<lambda>s. s\<lparr>cam_num := camera_number, interface_type := interface\<rparr>)) (\<lambda>_.
     seq (set_attr (\<lambda>s. s\<lparr>sizes_changed := True, transfer_param_changed := True,
                            cached_cam_desc := None\<rparr>)) (\<lambda>_.
     seq (get_sizes drv) (\<lambda>(_, _, mw, mh).
     set_ROI drv 0 0 mw mh)))))"

text \<open>
  The object before \<^verbatim>\<open>__init__\<close> has assigned anything: no optional attribute is present;
  the other fields are placeholders that \<^verbatim>\<open>__init__\<close> overwrites before they are read.
\<close>

definition blank :: PCO_Camera where
  "blank = \<lparr>buffers = [], queue = [], buf_size = 0, shutter = None, cam_num = 0,
     interface_type = 0, sizes_changed = False, transfer_param_changed = False,
     cached_cam_desc = None, cached_sizes = None, cached_transfer_param = None,
     last_buffer = None\<rparr>"

text \<open>\<^verbatim>\<open>PCO_Camera(cam_num)\<close>: the new object, or the exception that leaves the constructor.\<close>

definition init :: "sdk \<Rightarrow> int \<Rightarrow> history \<Rightarrow> (exn + PCO_Camera) \<times> history" where
  "init drv n h =
     (case init_body drv n (blank, h) of
        (Inl e, (s, h')) \<Rightarrow> (Inl e, h')
      | (Inr _, (s, h')) \<Rightarrow> (Inr s, h'))"

text \<open>\<^verbatim>\<open>close\<close>\<close>

definition close :: "sdk \<Rightarrow> unit action" where
  "close drv =
     seq (plib drv (SetRecordingState 0) (\<lambda>_. ())) (\<lambda>_.
     seq (clear_queue drv) (\<lambda>_.
     seq (free_buffers drv) (\<lambda>_.
     plib drv CloseCamera (\<lambda>_. ()))))"

text \<open>\<^verbatim>\<open>start_capture\<close>; \<^verbatim>\<open>_set_binning\<close> is called with \<^verbatim>\<open>vbin\<close> first, as in the source.\<close>

definition start_capture :: "sdk \<Rightarrow> kwds \<Rightarrow> unit action" where
  "start_capture drv kw =
     seq (set_binning drv (kw_vbin kw) (kw_hbin kw)) (\<lambda>_.
     seq (set_ROI drv (kw_left kw) (kw_top kw) (kw_right kw) (kw_bot kw)) (\<lambda>_.
     seq (set_delay_exposure_time drv 0 (kw_exposure_time kw)) (\<lambda>_.
     seq (plib drv ArmCamera (\<lambda>_. ())) (\<lambda>_.
     seq (allocate_buffers drv (kw_n_frames kw)) (\<lambda>_.
     seq (plib drv ArmCamera (\<lambda>_. ())) (\<lambda>_.
     seq (raw_call SetTransferParametersAuto (\<lambda>_. ())) (\<lambda>_.
     seq (plib drv ArmCamera (\<lambda>_. ())) (\<lambda>_.
     seq (width drv) (\<lambda>w.
     seq (height drv) (\<lambda>ht.
     seq (plib drv (CamLinkSetImageParameters w ht) (\<lambda>_. ())) (\<lambda>_.
     seq (get_attr buffers) (\<lambda>bufs.
     seq (for_each bufs (push_on_queue drv)) (\<lambda>_.
     seq (plib drv (SetRecordingState 1) (\<lambda>_. ())) (\<lambda>_.
     plib drv ForceTrigger (\<lambda>_. ())))))))))))))))"

text \<open>\<^verbatim>\<open>start_live_video\<close>; the frame rate is in mHz.\<close>

definition start_live_video :: "sdk \<Rightarrow> real \<Rightarrow> kwds \<Rightarrow> unit action" where
  "start_live_video drv framerate kw =
     seq (set_binning drv (kw_vbin kw) (kw_hbin kw)) (\<lambda>_.
     seq (set_ROI drv (kw_left kw) (kw_top kw) (kw_right kw) (kw_bot kw)) (\<lambda>_.
     seq (plib drv ArmCamera (\<lambda>_. ())) (\<lambda>_.
     seq (get_sizes drv) (\<lambda>(w, ht, _, _).
     seq (raw_call SetTransferParametersAuto (\<lambda>_. ())) (\<lambda>_.
     seq (set_framerate drv framerate (kw_exposure_time kw)) (\<lambda>_.
     seq (plib drv ArmCamera (\<lambda>_. ())) (\<lambda>_.
     seq (plib drv (CamLinkSetImageParameters w ht) (\<lambda>_. ())) (\<lambda>_.
     seq (set_attr (\<lambda>s. s\<lparr>shutter := Some ''continuous''\<rparr>)) (\<lambda>_.
     seq (frame_size drv) (\<lambda>fs.
     seq (get_attr (\<lambda>s. fs \<noteq> buf_size s \<or> length (buffers s) < 2)) (\<lambda>realloc.
     seq (if realloc then allocate_buffers drv (Some 2) else ret ()) (\<lambda>_.
     seq (plib drv ArmCamera (\<lambda>_. ())) (\<lambda>_.
     seq (get_attr buffers) (\<lambda>bufs.
     seq (for_each bufs (push_on_queue drv)) (\<lambda>_.
     seq (plib drv (SetRecordingState 1) (\<lambda>_. ())) (\<lambda>_.
     plib drv ForceTrigger (\<lambda>_. ())))))))))))))))))"

text \<open>\<^verbatim>\<open>stop_live_video\<close>\<close>

definition stop_live_video :: "sdk \<Rightarrow> unit action" where
  "stop_live_video drv =
     seq (plib drv (SetRecordingState 0) (\<lambda>_. ())) (\<lambda>_.
     seq (clear_queue drv) (\<lambda>_.
     seq (free_buffers drv) (\<lambda>_.
     set_attr (\<lambda>s. s\<lparr>shutter := None\<rparr>))))"

text \<open>\<^verbatim>\<open>grab_image\<close>\<close>

definition grab_image ::
    "sdk \<Rightarrow> nat \<Rightarrow> real \<Rightarrow> bool \<Rightarrow> kwds \<Rightarrow> PCO_Camera \<times> history
      \<Rightarrow> ((exn + captured) \<times> PCO_Camera \<times> history) option" where
  "grab_image drv fuel timeout copy kw \<sigma> =
     (case start_capture drv kw \<sigma> of
        (Inl e, \<sigma>') \<Rightarrow> Some (Inl e, \<sigma>')
      | (Inr _, \<sigma>') \<Rightarrow> get_captured_image drv fuel timeout copy \<sigma>')"

subsection \<open>Use of a camera object\<close>

text \<open>
  What a caller can do with a constructed camera: one constructor per method modelled
  above. A caller that catches the exception of one call can go on to the next, so a run
  continues from the state the call left, whether it raised or not. The methods left out
  (\<^verbatim>\<open>set_trigger_mode\<close>, \<^verbatim>\<open>_enable_soft_roi\<close>, \<^verbatim>\<open>_find_good_data_format\<close>,
  \<^verbatim>\<open>_color_mode\<close> and the getters of timing, frame rate, pixel rate and lookup tables)
  assign no attribute of their own; \<^verbatim>\<open>_color_mode\<close> goes through
  \<^verbatim>\<open>_get_camera_description\<close> and \<^verbatim>\<open>_data_depth\<close>, which are here.
\<close>

datatype op =
    Get_camera_description
  | Get_sizes
  | Get_transfer_parameter
  | Data_depth
  | Frame_size
  | Width
  | Height
  | Max_width
  | Max_height
  | Set_binning int int
  | Set_delay_exposure_time real real
  | Set_framerate real real
  | Set_ROI int int int int
  | Set_centered_ROI int int
  | Get_ROI
  | Allocate_buffers "int option"
  | Free_buffers
  | Clear_queue
  | Push_on_queue BufferInfo
  | Wait_for_frame real
  | Latest_frame bool
  | Start_capture kwds
  | Get_captured_image real bool
  | Grab_image real bool kwds
  | Start_live_video real kwds
  | Stop_live_video
  | Close

definition outcome :: "(exn + 'a) \<times> PCO_Camera \<times> history \<Rightarrow> exn option \<times> PCO_Camera \<times> history" where
  "outcome r = (case r of (Inl e, \<sigma>) \<Rightarrow> (Some e, \<sigma>) | (Inr _, \<sigma>) \<Rightarrow> (None, \<sigma>))"

fun exec :: "sdk \<Rightarrow> nat \<Rightarrow> op \<Rightarrow> PCO_Camera \<times> history \<Rightarrow> (exn option \<times> PCO_Camera \<times> history) option" where
  "exec drv fuel Get_camera_description \<sigma> = Some (outcome (get_camera_description drv \<sigma>))"
| "exec drv fuel Get_sizes \<sigma> = Some (outcome (get_sizes drv \<sigma>))"
| "exec drv fuel Get_transfer_parameter \<sigma> = Some (outcome (get_transfer_parameter drv \<sigma>))"
| "exec drv fuel Data_depth \<sigma> = Some (outcome (data_depth drv \<sigma>))"
| "exec drv fuel Frame_size \<sigma> = Some (outcome (frame_size drv \<sigma>))"
| "exec drv fuel Width \<sigma> = Some (outcome (width drv \<sigma>))"
| "exec drv fuel Height \<sigma> = Some (outcome (height drv \<sigma>))"
| "exec drv fuel Max_width \<sigma> = Some (outcome (max_width drv \<sigma>))"
| "exec drv fuel Max_height \<sigma> = Some (outcome (max_height drv \<sigma>))"
| "exec drv fuel (Set_binning hbin vbin) \<sigma> = Some (outcome (set_binning drv hbin vbin \<sigma>))"
| "exec drv fuel (Set_delay_exposure_time delay exposure) \<sigma> =
     Some (outcome (set_delay_exposure_time drv delay exposure \<sigma>))"
| "exec drv fuel (Set_framerate framerate exposure) \<sigma> =
     Some (outcome (set_framerate drv framerate exposure \<sigma>))"
| "exec drv fuel (Set_ROI x0 y0 x1 y1) \<sigma> = Some (outcome (set_ROI drv x0 y0 x1 y1 \<sigma>))"
| "exec drv fuel (Set_centered_ROI w ht) \<sigma> = Some (outcome (set_centered_ROI drv w ht \<sigma>))"
| "exec drv fuel Get_ROI \<sigma> = Some (outcome (get_ROI drv \<sigma>))"
| "exec drv fuel (Allocate_buffers n) \<sigma> = Some (outcome (allocate_buffers drv n \<sigma>))"
| "exec drv fuel Free_buffers \<sigma> = Some (outcome (free_buffers drv \<sigma>))"
| "exec drv fuel Clear_queue \<sigma> = Some (outcome (clear_queue drv \<sigma>))"
| "exec drv fuel (Push_on_queue buf) \<sigma> = Some (outcome (push_on_queue drv buf \<sigma>))"
| "exec drv fuel (Wait_for_frame timeout) \<sigma> = Some (outcome (wait_for_frame drv timeout \<sigma>))"
| "exec drv fuel (Latest_frame copy) \<sigma> = Some (outcome (latest_frame drv copy \<sigma>))"
| "exec drv fuel (Start_capture kw) \<sigma> = Some (outcome (start_capture drv kw \<sigma>))"
| "exec drv fuel (Get_captured_image timeout copy) \<sigma> =
     map_option outcome (get_captured_image drv fuel timeout copy \<sigma>)"
| "exec drv fuel (Grab_image timeout copy kw) \<sigma> =
     map_option outcome (grab_image drv fuel timeout copy kw \<sigma>)"
| "exec drv fuel (Start_live_video framerate kw) \<sigma> =
     Some (outcome (start_live_video drv framerate kw \<sigma>))"
| "exec drv fuel Stop_live_video \<sigma> = Some (outcome (stop_live_video drv \<sigma>))"
| "exec drv fuel Close \<sigma> = Some (outcome (close drv \<sigma>))"

text \<open>
  The states a camera object can be in: those the constructor returns, and those any
  terminating method call leaves behind.
\<close>

inductive constructed :: "sdk \<Rightarrow> PCO_Camera \<times> history \<Rightarrow> bool" for drv :: sdk where
  fresh: "init drv n h = (Inr s, h') \<Longrightarrow> constructed drv (s, h')"
| call: "constructed drv \<sigma> \<Longrightarrow> exec drv fuel c \<sigma> = Some (e, \<sigma>') \<Longrightarrow> constructed drv \<sigma>'"

subsection \<open>Notions used to state the properties\<close>

text \<open>\<open>N\<close> consecutive calls of \<^verbatim>\<open>wait_for_frame\<close>, each of which returns \<^verbatim>\<open>True\<close>.\<close>

fun waits :: "sdk \<Rightarrow> real list \<Rightarrow> PCO_Camera \<times> history \<Rightarrow> (PCO_Camera \<times> history) option" where
  "waits drv [] \<sigma> = Some \<sigma>"
| "waits drv (t # ts) \<sigma> =
     (case wait_for_frame drv t \<sigma> of
        (Inr True, \<sigma>') \<Rightarrow> waits drv ts \<sigma>'
      | _ \<Rightarrow> None)"

text \<open>
  The byte size as the specification words it:
  \<^verbatim>\<open>ceil(width*height*bit_depth/16)*2\<close>.
\<close>

definition spec_frame_size :: "int \<Rightarrow> int \<Rightarrow> int \<Rightarrow> int" where
  "spec_frame_size w ht depth = \<lceil>real_of_int (w * ht * depth) / 16\<rceil> * 2"

text \<open>Two objects that agree on every attribute but the two lazy caches and their flags.\<close>

definition caches_differ :: "PCO_Camera \<Rightarrow> PCO_Camera \<Rightarrow> bool" where
  "caches_differ s s' \<longleftrightarrow>
     s' = s\<lparr>cached_sizes := cached_sizes s', sizes_changed := sizes_changed s',
           cached_transfer_param := cached_transfer_param s',
           transfer_param_changed := transfer_param_changed s'\<rparr>"

text \<open>A method keeps a property of the object and the history, however it ends.\<close>

definition preserves :: "(PCO_Camera \<times> history \<Rightarrow> bool) \<Rightarrow> 'a action \<Rightarrow> bool" where
  "preserves P m \<longleftrightarrow> (\<forall>\<sigma>. P \<sigma> \<longrightarrow> P (snd (m \<sigma>)))"

text \<open>
  What the constructor establishes and every method keeps: the camera description is
  cached and both of its ROI steps are non-zero (a zero step makes the constructor's own
  \<^verbatim>\<open>_set_ROI\<close> call raise \<^verbatim>\<open>ZeroDivisionError\<close>); and \<^verbatim>\<open>last_buffer\<close> exists only if
  \<^verbatim>\<open>ResetEvent\<close> has been called, which \<^verbatim>\<open>wait_for_frame\<close> alone does, between seeing
  a zero driver status and popping the queue.
\<close>

definition desc_ok :: "PCO_Camera \<times> history \<Rightarrow> bool" where
  "desc_ok \<sigma> \<longleftrightarrow>
     (case cached_cam_desc (fst \<sigma>) of
        None \<Rightarrow> False
      | Some d \<Rightarrow> wRoiHorStepsDESC d \<noteq> 0 \<and> wRoiVertStepsDESC d \<noteq> 0)"

definition frame_seen :: "PCO_Camera \<times> history \<Rightarrow> bool" where
  "frame_seen \<sigma> \<longleftrightarrow> last_buffer (fst \<sigma>) = None \<or> (\<exists>c \<in> set (snd \<sigma>). \<exists>ev. c = ResetEvent ev)"

definition cam_inv :: "PCO_Camera \<times> history \<Rightarrow> bool" where
  "cam_inv \<sigma> \<longleftrightarrow> desc_ok \<sigma> \<and> frame_seen \<sigma>"

text \<open>
  The answers of the environment that let a call of \<^verbatim>\<open>wait_for_frame\<close> reach line 502:
  the queue is not empty, the wait on the head buffer's event is signalled, and
  \<^verbatim>\<open>GetBufferStatus\<close> is accepted and reports the driver sub-status zero.
\<close>

definition frame_ready :: "sdk \<Rightarrow> real \<Rightarrow> PCO_Camera \<times> history \<Rightarrow> bool" where
  "frame_ready drv timeout \<sigma> \<longleftrightarrow>
     queue (fst \<sigma>) \<noteq> [] \<and>
     (let buf = hd (queue (fst \<sigma>));
          h1 = snd \<sigma> @ [WaitForSingleObject (event buf) \<lfloor>max 0 timeout\<rfloor>];
          h2 = h1 @ [GetBufferStatus (num buf)]
      in wait_ret drv h1 = WAIT_OBJECT_0 \<and> ret_code drv h2 = 0 \<and>
         snd (out_status drv h2) = 0)"

subsection \<open>Simulated drivers\<close>

text \<open>
  Concrete environments on which the theorems below are instantiated. \<open>sim_sdk\<close> is a
  device of 100 by 100 pixels with ROI steps of 1 that accepts every call, transfers
  16-bit data, reports the ROI last set, and has every frame ready at once. The numeric
  values of the header constants are those of the simulation.
\<close>

definition last_set_roi :: "history \<Rightarrow> int \<times> int \<times> int \<times> int" where
  "last_set_roi h =
     foldl (\<lambda>acc c. case c of SetROI a b c d \<Rightarrow> (a, b, c, d) | _ \<Rightarrow> acc) (0, 0, 0, 0) h"

definition sim_sdk :: sdk where
  "sim_sdk = \<lparr>PCO_CL_DATAFORMAT_MASK = 0x0F, PCO_CL_DATAFORMAT_5x16 = 0x05,
     PCO_CL_DATAFORMAT_5x12L = 0x09, PCO_CL_DATAFORMAT_5x12 = 0x07,
     PCO_CL_DATAFORMAT_5x12R = 0x0A, PCO_CL_DATAFORMAT_10x8 = 0x08,
     ret_code = (\<lambda>_. 0), out_open = (\<lambda>_. (0, 2)),
     out_sizes = (\<lambda>_. (100, 100, 100, 100)), out_roi = last_set_roi,
     out_desc = (\<lambda>_. \<lparr>wRoiHorStepsDESC = 1, wRoiVertStepsDESC = 1\<rparr>),
     out_transfer = (\<lambda>_. \<lparr>DataFormat = 0x05\<rparr>),
     out_alloc = (\<lambda>h. (int (length h), 4096 * int (length h), 7000 + int (length h))),
     out_status = (\<lambda>_. (0, 0)), wait_ret = (\<lambda>_. WAIT_OBJECT_0),
     clock_val = (\<lambda>_. 0)\<rparr>"

text \<open>A device with ROI steps of 2.\<close>

definition stepped_sdk :: sdk where
  "stepped_sdk = sim_sdk\<lparr>out_desc := (\<lambda>_. \<lparr>wRoiHorStepsDESC = 2, wRoiVertStepsDESC = 2\<rparr>)\<rparr>"

text \<open>A device of 200 by 200 pixels.\<close>

definition wide_sdk :: sdk where
  "wide_sdk = sim_sdk\<lparr>out_sizes := (\<lambda>_. (200, 200, 200, 200))\<rparr>"

text \<open>A device set to a 10 by 3 image of packed 12-bit data.\<close>

definition packed_sdk :: sdk where
  "packed_sdk = sim_sdk\<lparr>out_sizes := (\<lambda>_. (10, 3, 100, 100)),
     out_transfer := (\<lambda>_. \<lparr>DataFormat = 0x07\<rparr>)\<rparr>"

text \<open>A device on which no frame ever becomes ready.\<close>

definition quiet_sdk :: sdk where
  "quiet_sdk = sim_sdk\<lparr>wait_ret := (\<lambda>_. WAIT_TIMEOUT)\<rparr>"

text \<open>A device that signals completion and reports the driver sub-status 5.\<close>

definition faulty_sdk :: sdk where
  "faulty_sdk = sim_sdk\<lparr>out_status := (\<lambda>_. (0, 5))\<rparr>"

text \<open>
  A device that is lost during the first wait: the wait times out, and every SDK call
  after it returns the status 7.
\<close>

definition is_wait :: "call \<Rightarrow> bool" where
  "is_wait c = (case c of WaitForSingleObject _ _ \<Rightarrow> True | _ \<Rightarrow> False)"

definition lost_sdk :: sdk where
  "lost_sdk = quiet_sdk\<lparr>ret_code := (\<lambda>h. if list_ex is_wait h then 7 else 0)\<rparr>"

text \<open>The camera that the constructor returns on \<open>sim_sdk\<close>, and the calls it has made.\<close>

definition fresh_cam :: PCO_Camera where
  "fresh_cam = \<lparr>buffers = [], queue = [], buf_size = 0, shutter = None, cam_num = 0,
     interface_type = 2, sizes_changed = True, transfer_param_changed = True,
     cached_cam_desc = Some \<lparr>wRoiHorStepsDESC = 1, wRoiVertStepsDESC = 1\<rparr>,
     cached_sizes = Some (100, 100, 100, 100), cached_transfer_param = None,
     last_buffer = None\<rparr>"

definition fresh_hist :: history where
  "fresh_hist = [OpenCameraEx 0, GetSizes, GetCameraDescription, SetROI 1 1 100 100]"

text \<open>The camera that the constructor returns on \<open>stepped_sdk\<close>.\<close>

definition stepped_cam :: PCO_Camera where
  "stepped_cam = fresh_cam\<lparr>cached_cam_desc :=
     Some \<lparr>wRoiHorStepsDESC = 2, wRoiVertStepsDESC = 2\<rparr>\<rparr>"

text \<open>The camera that the constructor returns on \<open>wide_sdk\<close>, and the calls it has made.\<close>

definition wide_cam :: PCO_Camera where
  "wide_cam = fresh_cam\<lparr>cached_sizes := Some (200, 200, 200, 200)\<rparr>"

definition wide_hist :: history where
  "wide_hist = [OpenCameraEx 0, GetSizes, GetCameraDescription, SetROI 1 1 200 200]"

text \<open>
  The camera of \<open>sim_sdk\<close> after \<^verbatim>\<open>_allocate_buffers(1)\<close> and \<^verbatim>\<open>_push_on_queue\<close> of its
  buffer, and the calls made up to then.
\<close>

definition buf9 :: BufferInfo where
  "buf9 = \<lparr>num = 9, address = 36864, event = 7009\<rparr>"

definition queued_cam :: PCO_Camera where
  "queued_cam = fresh_cam\<lparr>buffers := [buf9], queue := [buf9], buf_size := 20000,
     sizes_changed := False, transfer_param_changed := False,
     cached_transfer_param := Some \<lparr>DataFormat = 0x05\<rparr>\<rparr>"

definition queued_hist :: history where
  "queued_hist = fresh_hist @ [SetRecordingState 0, CancelImages, GetSizes,
     GetTransferParameter, AllocateBuffer (- 1) 20000, AddBufferEx 0 0 9 100 100 16]"

text \<open>A camera in live video with two buffers queued.\<close>

definition buf18 :: BufferInfo where
  "buf18 = \<lparr>num = 18, address = 73728, event = 7018\<rparr>"

definition buf19 :: BufferInfo where
  "buf19 = \<lparr>num = 19, address = 77824, event = 7019\<rparr>"

definition live_cam :: PCO_Camera where
  "live_cam = queued_cam\<lparr>buffers := [buf18, buf19], queue := [buf18, buf19],
     shutter := Some ''continuous''\<rparr>"

section \<open>Lemmas\<close>

text \<open>
  The definitions of the combinators, unfolded together where a method is evaluated step
  by step; and the shape of a sequence that ends without an exception.
\<close>

lemmas action_defs = seq_def ret_def raise_def get_attr_def set_attr_def plib_def raw_call_def
  catch_def

lemma seq_Inr_iff:
  "seq m f \<sigma> = (Inr y, \<sigma>') \<longleftrightarrow> (\<exists>x \<sigma>1. m \<sigma> = (Inr x, \<sigma>1) \<and> f x \<sigma>1 = (Inr y, \<sigma>'))"
  by (auto simp: seq_def split: prod.splits sum.splits)

subsection \<open>Structural rules for kept properties\<close>

text \<open>
  A property is kept by a method if it is kept by each statement of the method: one rule
  per combinator, so that a proof follows the text of the method.
\<close>

lemma preservesD: "preserves P m \<Longrightarrow> P \<sigma> \<Longrightarrow> m \<sigma> = (r, \<sigma>') \<Longrightarrow> P \<sigma>'"
  unfolding preserves_def by (metis snd_conv)

lemma preserves_ret: "preserves P (ret x)"
  by (simp add: preserves_def ret_def)

lemma preserves_raise: "preserves P (raise e)"
  by (simp add: preserves_def raise_def)

lemma preserves_get_attr: "preserves P (get_attr f)"
  by (simp add: preserves_def get_attr_def split: prod.splits)

lemma preserves_seq:
  "preserves P m \<Longrightarrow> (\<And>x. preserves P (f x)) \<Longrightarrow> preserves P (seq m f)"
  unfolding preserves_def seq_def
  by (auto split: prod.splits sum.splits) (metis snd_conv)+

lemma preserves_catch:
  "preserves P m \<Longrightarrow> (\<And>e. preserves P (f e)) \<Longrightarrow> preserves P (catch m f)"
  unfolding preserves_def catch_def
  by (auto split: prod.splits sum.splits) (metis snd_conv)+

lemma preserves_if:
  "(b \<Longrightarrow> preserves P m) \<Longrightarrow> (\<not> b \<Longrightarrow> preserves P n) \<Longrightarrow> preserves P (if b then m else n)"
  by simp

lemma preserves_case_option:
  "preserves P a \<Longrightarrow> (\<And>y. preserves P (b y)) \<Longrightarrow>
   preserves P (case x of None \<Rightarrow> a | Some y \<Rightarrow> b y)"
  by (cases x) simp_all

lemma preserves_case_prod:
  "(\<And>a b. preserves P (f a b)) \<Longrightarrow> preserves P (case x of (a, b) \<Rightarrow> f a b)"
  by (cases x) simp

lemma preserves_for_each:
  "(\<And>x. preserves P (body x)) \<Longrightarrow> preserves P (for_each xs body)"
  by (induction xs) (auto intro: preserves_ret preserves_seq)

lemma preserves_plib:
  "(\<And>s h. P (s, h) \<Longrightarrow> P (s, h @ [c])) \<Longrightarrow> preserves P (plib drv c out)"
  by (auto simp: preserves_def plib_def Let_def)

lemma preserves_raw_call:
  "(\<And>s h. P (s, h) \<Longrightarrow> P (s, h @ [c])) \<Longrightarrow> preserves P (raw_call c out)"
  by (auto simp: preserves_def raw_call_def)

lemma preserves_set_attr:
  "(\<And>s h. P (s, h) \<Longrightarrow> P (upd s, h)) \<Longrightarrow> preserves P (set_attr upd)"
  by (auto simp: preserves_def set_attr_def)

lemmas preserves_intros =
  preserves_ret preserves_raise preserves_get_attr preserves_seq preserves_catch preserves_if
  preserves_case_option preserves_case_prod preserves_for_each preserves_plib
  preserves_raw_call preserves_set_attr

subsection \<open>The invariant of a constructed camera\<close>

text \<open>
  Every method keeps \<open>cam_inv\<close>. The only assignment to \<^verbatim>\<open>last_buffer\<close> is in
  \<^verbatim>\<open>wait_for_frame\<close>, right after \<^verbatim>\<open>ResetEvent\<close> (\<open>inv_reset_then_pop\<close>); the only
  assignment to \<^verbatim>\<open>_cached_cam_desc\<close> is in \<^verbatim>\<open>_get_camera_description\<close>, when nothing is
  cached yet.
\<close>

lemmas cam_inv_defs = cam_inv_def desc_ok_def frame_seen_def

lemma inv_get_camera_description: "preserves cam_inv (get_camera_description drv)"
  by (auto simp: preserves_def get_camera_description_def action_defs cam_inv_defs
      split: option.splits)

lemma inv_get_sizes: "preserves cam_inv (get_sizes drv)"
  unfolding get_sizes_def
  by (intro preserves_intros) (auto simp: cam_inv_defs)

lemma inv_get_transfer_parameter: "preserves cam_inv (get_transfer_parameter drv)"
  unfolding get_transfer_parameter_def
  by (intro preserves_intros) (auto simp: cam_inv_defs)

lemma inv_data_depth: "preserves cam_inv (data_depth drv)"
  unfolding data_depth_def Let_def
  by (intro preserves_intros inv_get_transfer_parameter)

lemma inv_frame_size: "preserves cam_inv (frame_size drv)"
  unfolding frame_size_def
  by (intro preserves_intros inv_get_sizes inv_data_depth)

lemma inv_free_buffers: "preserves cam_inv (free_buffers drv)"
  unfolding free_buffers_def
  by (intro preserves_intros) (auto simp: cam_inv_defs)

lemma inv_clear_queue: "preserves cam_inv (clear_queue drv)"
  unfolding clear_queue_def
  by (intro preserves_intros) (auto simp: cam_inv_defs)

lemma inv_push_on_queue: "preserves cam_inv (push_on_queue drv buf)"
  unfolding push_on_queue_def
  by (intro preserves_intros inv_get_sizes inv_data_depth) (auto simp: cam_inv_defs)

lemma inv_allocate_buffers: "preserves cam_inv (allocate_buffers drv n)"
  unfolding allocate_buffers_def Let_def
  by (intro preserves_intros inv_clear_queue inv_free_buffers inv_frame_size)
    (auto simp: cam_inv_defs)

lemma inv_max_width: "preserves cam_inv (max_width drv)"
  unfolding max_width_def by (intro preserves_intros inv_get_sizes)

lemma inv_max_height: "preserves cam_inv (max_height drv)"
  unfolding max_height_def by (intro preserves_intros inv_get_sizes)

lemma inv_width: "preserves cam_inv (width drv)"
  unfolding width_def by (intro preserves_intros inv_get_sizes)

lemma inv_height: "preserves cam_inv (height drv)"
  unfolding height_def by (intro preserves_intros inv_get_sizes)

lemma preserves_case_exn:
  "(\<And>c m. preserves P (f c m)) \<Longrightarrow> (\<And>m. preserves P (g m)) \<Longrightarrow> preserves P t \<Longrightarrow>
   preserves P z \<Longrightarrow> preserves P a \<Longrightarrow> preserves P v \<Longrightarrow>
   preserves P (case e of Error c m \<Rightarrow> f c m | Exception m \<Rightarrow> g m | TimeoutError \<Rightarrow> t
      | ZeroDivisionError \<Rightarrow> z | AttributeError \<Rightarrow> a | ValueError \<Rightarrow> v)"
  by (cases e) simp_all

lemma inv_set_ROI: "preserves cam_inv (set_ROI drv x0 y0 x1 y1)"
  unfolding set_ROI_def Let_def
  by (intro preserves_intros preserves_case_exn inv_get_camera_description inv_max_width
      inv_max_height)
    (auto simp: cam_inv_defs)

lemma inv_set_centered_ROI: "preserves cam_inv (set_centered_ROI drv w ht)"
  unfolding set_centered_ROI_def Let_def
  by (intro preserves_intros inv_get_sizes inv_set_ROI)

lemma inv_get_ROI: "preserves cam_inv (get_ROI drv)"
  unfolding get_ROI_def
  by (intro preserves_intros) (auto simp: cam_inv_defs)

lemma inv_to_array: "preserves P (to_array a n c ht wd)"
  unfolding to_array_def by (intro preserves_intros)

lemma inv_latest_frame: "preserves cam_inv (latest_frame drv copy)"
  unfolding latest_frame_def
  by (intro preserves_intros inv_frame_size inv_get_sizes inv_to_array)

lemma inv_reset_then_pop:
  assumes "\<And>x. preserves cam_inv (g x)"
    and "\<And>s. cached_cam_desc (upd s) = cached_cam_desc s"
  shows "preserves cam_inv
    (seq (raw_call (ResetEvent ev) out) (\<lambda>_. seq (set_attr upd) g))"
proof -
  have "preserves cam_inv (seq (raw_call (ResetEvent ev) out) (\<lambda>_. set_attr upd))"
    using assms(2)
    by (auto simp: preserves_def action_defs cam_inv_defs split: option.splits)
  moreover have "seq (raw_call (ResetEvent ev) out) (\<lambda>_. seq (set_attr upd) g)
      = seq (seq (raw_call (ResetEvent ev) out) (\<lambda>_. set_attr upd)) g"
    by (auto simp: action_defs fun_eq_iff split: prod.splits sum.splits)
  ultimately show ?thesis
    using assms(1) by (simp add: preserves_seq)
qed

lemma inv_wait_for_frame: "preserves cam_inv (wait_for_frame drv t)"
  unfolding wait_for_frame_def Let_def
  apply (rule preserves_seq [OF preserves_get_attr])
  apply (rule preserves_if [OF preserves_raise])
  apply (rule preserves_seq)
   apply (rule preserves_raw_call, simp add: cam_inv_defs)
  apply (rule preserves_if)
   apply (rule preserves_seq)
    apply (rule preserves_plib, simp add: cam_inv_defs)
   apply (rule preserves_case_prod)
   apply (rule preserves_if [OF preserves_raise])
   apply (rule inv_reset_then_pop)
    apply (intro preserves_intros inv_push_on_queue)
   apply simp
  apply (intro preserves_intros)
  done

lemma inv_drain_step:
  "preserves cam_inv (drain_step drv timeout copy start fs ht wd arrs)"
  unfolding drain_step_def Let_def
  by (intro preserves_intros inv_wait_for_frame inv_to_array) (auto simp: cam_inv_defs)

lemma inv_drain:
  "cam_inv \<sigma> \<Longrightarrow> drain drv fuel timeout copy start fs ht wd arrs \<sigma> = Some (r, \<sigma>') \<Longrightarrow>
   cam_inv \<sigma>'"
proof (induction fuel arbitrary: \<sigma> arrs)
  case 0
  then show ?case by (auto split: if_splits)
next
  case (Suc fuel)
  show ?case
  proof (cases "queue (fst \<sigma>) = []")
    case True
    with Suc.prems show ?thesis by simp
  next
    case False
    obtain r1 \<sigma>1 where step: "drain_step drv timeout copy start fs ht wd arrs \<sigma> = (r1, \<sigma>1)"
      by (cases "drain_step drv timeout copy start fs ht wd arrs \<sigma>") auto
    with Suc.prems(1) have inv1: "cam_inv \<sigma>1"
      by (blast intro: preservesD [OF inv_drain_step])
    show ?thesis
    proof (cases r1)
      case (Inl e)
      with Suc.prems(2) False step inv1 show ?thesis by simp
    next
      case (Inr arrs')
      with Suc.prems(2) False step
      have "drain drv fuel timeout copy start fs ht wd arrs' \<sigma>1 = Some (r, \<sigma>')" by simp
      with inv1 show ?thesis by (rule Suc.IH)
    qed
  qed
qed

lemma inv_cleanup: "preserves cam_inv (cleanup drv)"
  unfolding cleanup_def
  by (intro preserves_intros inv_clear_queue) (auto simp: cam_inv_defs)

lemma inv_get_captured_image:
  assumes "cam_inv \<sigma>" and "get_captured_image drv fuel timeout copy \<sigma> = Some (r, \<sigma>')"
  shows "cam_inv \<sigma>'"
proof -
  define pre where "pre = seq (get_sizes drv) (\<lambda>(wd, ht, _, _).
           seq (frame_size drv) (\<lambda>fs. ret (wd, ht, fs)))"
  have pre: "preserves cam_inv pre"
    unfolding pre_def by (intro preserves_intros inv_get_sizes inv_frame_size)
  obtain r1 \<sigma>1 where p: "pre \<sigma> = (r1, \<sigma>1)" by (cases "pre \<sigma>") auto
  with assms(1) pre have inv1: "cam_inv \<sigma>1" by (blast intro: preservesD)
  show ?thesis
  proof (cases r1)
    case (Inl e)
    with assms(2) p inv1 show ?thesis
      by (simp add: get_captured_image_def pre_def [symmetric])
  next
    case (Inr tr)
    obtain wd ht fs where tr: "tr = (wd, ht, fs)" by (cases tr) auto
    obtain start \<sigma>2 where c: "raw_call Clock (clock_val drv) \<sigma>1 = (Inr start, \<sigma>2)"
      by (cases \<sigma>1) (simp add: raw_call_def)
    have "preserves cam_inv (raw_call Clock (clock_val drv))"
      by (intro preserves_intros) (auto simp: cam_inv_defs)
    with inv1 c have inv2: "cam_inv \<sigma>2" by (blast intro: preservesD)
    from assms(2) p Inr tr c obtain r3 \<sigma>3 where
      d: "drain drv fuel timeout copy start fs ht wd [] \<sigma>2 = Some (r3, \<sigma>3)" and
      rest: "(case cleanup drv \<sigma>3 of
                (Inl e, \<sigma>4) \<Rightarrow> Some (Inl e, \<sigma>4)
              | (Inr _, \<sigma>4) \<Rightarrow>
                  (case r3 of
                     Inl e \<Rightarrow> Some (Inl e, \<sigma>4)
                   | Inr image_arrs \<Rightarrow>
                       Some (Inr (if length image_arrs = 1 then Single (hd image_arrs)
                                  else Tuple image_arrs), \<sigma>4))) = Some (r, \<sigma>')"
      by (auto simp: get_captured_image_def pre_def [symmetric] split: option.splits)
    from inv2 d have inv3: "cam_inv \<sigma>3" by (rule inv_drain)
    obtain r4 \<sigma>4 where cl: "cleanup drv \<sigma>3 = (r4, \<sigma>4)" by (cases "cleanup drv \<sigma>3") auto
    with inv3 have "cam_inv \<sigma>4" by (blast intro: preservesD [OF inv_cleanup])
    moreover from rest cl have "\<sigma>' = \<sigma>4" by (auto split: sum.splits)
    ultimately show ?thesis by simp
  qed
qed

lemma inv_set_binning: "preserves cam_inv (set_binning drv a b)"
  unfolding set_binning_def by (intro preserves_intros) (auto simp: cam_inv_defs)

lemma inv_set_delay_exposure_time: "preserves cam_inv (set_delay_exposure_time drv a b)"
  unfolding set_delay_exposure_time_def Let_def
  by (intro preserves_intros) (auto simp: cam_inv_defs)

lemma inv_set_framerate: "preserves cam_inv (set_framerate drv a b)"
  unfolding set_framerate_def Let_def
  by (intro preserves_intros) (auto simp: cam_inv_defs)

lemma inv_start_capture: "preserves cam_inv (start_capture drv kw)"
  unfolding start_capture_def
  by (intro preserves_intros inv_set_binning inv_set_ROI inv_set_delay_exposure_time
      inv_allocate_buffers inv_width inv_height inv_push_on_queue)
    (auto simp: cam_inv_defs)

lemma inv_start_live_video: "preserves cam_inv (start_live_video drv fr kw)"
  unfolding start_live_video_def
  by (intro preserves_intros inv_set_binning inv_set_ROI inv_set_framerate inv_get_sizes
      inv_frame_size inv_allocate_buffers inv_push_on_queue)
    (auto simp: cam_inv_defs)

lemma inv_stop_live_video: "preserves cam_inv (stop_live_video drv)"
  unfolding stop_live_video_def
  by (intro preserves_intros inv_clear_queue inv_free_buffers) (auto simp: cam_inv_defs)

lemma inv_close: "preserves cam_inv (close drv)"
  unfolding close_def
  by (intro preserves_intros inv_clear_queue inv_free_buffers) (auto simp: cam_inv_defs)

lemma inv_grab_image:
  assumes "cam_inv \<sigma>" and "grab_image drv fuel timeout copy kw \<sigma> = Some (r, \<sigma>')"
  shows "cam_inv \<sigma>'"
proof -
  obtain r1 \<sigma>1 where s: "start_capture drv kw \<sigma> = (r1, \<sigma>1)"
    by (cases "start_capture drv kw \<sigma>") auto
  with assms(1) have inv1: "cam_inv \<sigma>1" by (blast intro: preservesD [OF inv_start_capture])
  show ?thesis
  proof (cases r1)
    case (Inl e)
    with assms(2) s inv1 show ?thesis by (simp add: grab_image_def)
  next
    case (Inr u)
    with assms(2) s have "get_captured_image drv fuel timeout copy \<sigma>1 = Some (r, \<sigma>')"
      by (simp add: grab_image_def)
    with inv1 show ?thesis by (rule inv_get_captured_image)
  qed
qed

lemma outcome_state: "outcome (r, \<sigma>) = (e, \<sigma>') \<Longrightarrow> \<sigma>' = \<sigma>"
  by (auto simp: outcome_def split: sum.splits)

lemma inv_outcome:
  "preserves cam_inv m \<Longrightarrow> cam_inv \<sigma> \<Longrightarrow> outcome (m \<sigma>) = (e, \<sigma>') \<Longrightarrow> cam_inv \<sigma>'"
  by (cases "m \<sigma>") (auto dest: outcome_state preservesD)

lemma inv_exec:
  assumes "cam_inv \<sigma>" and "exec drv fuel c \<sigma> = Some (e, \<sigma>')"
  shows "cam_inv \<sigma>'"
proof (cases c)
  case (Get_captured_image timeout copy)
  with assms(2) obtain r where "get_captured_image drv fuel timeout copy \<sigma> = Some (r, \<sigma>')"
    by (auto dest: outcome_state)
  with assms(1) show ?thesis by (rule inv_get_captured_image)
next
  case (Grab_image timeout copy kw)
  with assms(2) obtain r where "grab_image drv fuel timeout copy kw \<sigma> = Some (r, \<sigma>')"
    by (auto dest: outcome_state)
  with assms(1) show ?thesis by (rule inv_grab_image)
qed (use assms in \<open>auto elim: inv_outcome [rotated 2] intro: inv_get_camera_description
      inv_get_sizes inv_get_transfer_parameter inv_data_depth inv_frame_size inv_width
      inv_height inv_max_width inv_max_height inv_set_binning inv_set_delay_exposure_time
      inv_set_framerate inv_set_ROI inv_set_centered_ROI inv_get_ROI
      inv_allocate_buffers inv_free_buffers inv_clear_queue inv_push_on_queue
      inv_wait_for_frame inv_latest_frame inv_start_capture inv_start_live_video
      inv_stop_live_video inv_close\<close>)

subsection \<open>Construction\<close>

text \<open>
  A constructor that returns has run \<^verbatim>\<open>_set_ROI\<close> to its end, which caches the camera
  description and divides by both of its steps; and it has not assigned \<^verbatim>\<open>last_buffer\<close>.
  So the invariant holds of every constructed camera.
\<close>

lemma get_camera_description_cached:
  "cached_cam_desc s = Some d \<Longrightarrow> get_camera_description drv (s, h) = (Inr d, (s, h))"
  by (simp add: get_camera_description_def action_defs)

lemma get_camera_description_result:
  "get_camera_description drv \<sigma> = (Inr d, \<sigma>') \<Longrightarrow> cached_cam_desc (fst \<sigma>') = Some d"
  by (cases \<sigma>) (auto simp: get_camera_description_def action_defs Let_def
      split: option.splits if_splits)

lemma set_ROI_after_description:
  assumes "get_camera_description drv \<sigma> = (Inr d, \<sigma>1)"
  shows "set_ROI drv x0 y0 x1 y1 \<sigma> = set_ROI drv x0 y0 x1 y1 \<sigma>1"
proof -
  from assms have "cached_cam_desc (fst \<sigma>1) = Some d"
    by (rule get_camera_description_result)
  then have "get_camera_description drv \<sigma>1 = (Inr d, \<sigma>1)"
    by (cases \<sigma>1) (simp add: get_camera_description_cached)
  with assms show ?thesis
    unfolding set_ROI_def by (simp add: seq_def [of "get_camera_description drv"])
qed

lemma keeps_desc_get_sizes:
  "preserves (\<lambda>\<sigma>. cached_cam_desc (fst \<sigma>) = Some d) (get_sizes drv)"
  unfolding get_sizes_def by (intro preserves_intros) auto

lemma keeps_desc_set_ROI:
  "preserves (\<lambda>\<sigma>. cached_cam_desc (fst \<sigma>) = Some d) (set_ROI drv x0 y0 x1 y1)"
proof -
  have "preserves (\<lambda>\<sigma>. cached_cam_desc (fst \<sigma>) = Some d) (get_camera_description drv)"
    by (auto simp: preserves_def get_camera_description_def action_defs)
  then show ?thesis
    unfolding set_ROI_def max_width_def max_height_def Let_def
    by (intro preserves_intros preserves_case_exn keeps_desc_get_sizes) auto
qed

lemma set_ROI_success_steps:
  assumes "cached_cam_desc s = Some d"
    and "set_ROI drv x0 y0 x1 y1 (s, h) = (Inr u, \<sigma>')"
  shows "wRoiHorStepsDESC d \<noteq> 0 \<and> wRoiVertStepsDESC d \<noteq> 0"
  using assms unfolding set_ROI_def Let_def
  by (auto simp: seq_Inr_iff get_camera_description_cached raise_def split: if_splits)

lemma set_ROI_success_desc:
  assumes "set_ROI drv x0 y0 x1 y1 \<sigma> = (Inr u, \<sigma>')"
  shows "desc_ok \<sigma>'"
proof -
  from assms obtain d \<sigma>1 where gd: "get_camera_description drv \<sigma> = (Inr d, \<sigma>1)"
    unfolding set_ROI_def by (auto simp: seq_Inr_iff)
  obtain s1 h1 where \<sigma>1: "\<sigma>1 = (s1, h1)" by (cases \<sigma>1) auto
  from gd have cached: "cached_cam_desc s1 = Some d"
    by (auto dest: get_camera_description_result simp: \<sigma>1)
  from assms gd have run: "set_ROI drv x0 y0 x1 y1 (s1, h1) = (Inr u, \<sigma>')"
    by (simp add: set_ROI_after_description \<sigma>1)
  with cached have "wRoiHorStepsDESC d \<noteq> 0 \<and> wRoiVertStepsDESC d \<noteq> 0"
    by (rule set_ROI_success_steps)
  moreover have "cached_cam_desc (fst (s1, h1)) = Some d"
    using cached by simp
  with keeps_desc_set_ROI have "cached_cam_desc (fst \<sigma>') = Some d"
    using run by (rule preservesD)
  ultimately show ?thesis by (simp add: desc_ok_def)
qed

lemma keeps_no_frame_get_sizes:
  "preserves (\<lambda>\<sigma>. last_buffer (fst \<sigma>) = None) (get_sizes drv)"
  unfolding get_sizes_def by (intro preserves_intros) auto

lemma keeps_no_frame_init_body:
  "preserves (\<lambda>\<sigma>. last_buffer (fst \<sigma>) = None) (init_body drv n)"
  unfolding init_body_def set_ROI_def get_camera_description_def max_width_def
    max_height_def Let_def
  by (intro preserves_intros preserves_case_exn keeps_no_frame_get_sizes) auto

lemma init_no_frame:
  assumes "init drv n h = (Inr s, h')"
  shows "last_buffer s = None"
proof -
  from assms obtain u where "init_body drv n (blank, h) = (Inr u, (s, h'))"
    by (auto simp: init_def split: prod.splits sum.splits)
  moreover have "last_buffer (fst (blank, h)) = None" by (simp add: blank_def)
  ultimately have "last_buffer (fst (s, h')) = None"
    using keeps_no_frame_init_body [of drv n] by (blast dest: preservesD)
  then show ?thesis by simp
qed

lemma init_cam_inv:
  assumes "init drv n h = (Inr s, h')"
  shows "cam_inv (s, h')"
proof -
  from assms obtain u where "init_body drv n (blank, h) = (Inr u, (s, h'))"
    by (auto simp: init_def split: prod.splits sum.splits)
  then obtain mw mh \<sigma>1 where "set_ROI drv 0 0 mw mh \<sigma>1 = (Inr u, (s, h'))"
    unfolding init_body_def by (auto simp: seq_Inr_iff)
  then have "desc_ok (s, h')" by (rule set_ROI_success_desc)
  moreover from assms have "last_buffer s = None" by (rule init_no_frame)
  ultimately show ?thesis by (simp add: cam_inv_def frame_seen_def)
qed

lemma constructed_cam_inv: "constructed drv \<sigma> \<Longrightarrow> cam_inv \<sigma>"
proof (induction rule: constructed.induct)
  case (fresh n h s h')
  then show ?case by (rule init_cam_inv)
next
  case (call \<sigma> fuel c e \<sigma>')
  from call.IH call.hyps(2) show ?case by (rule inv_exec)
qed

lemma constructed_steps:
  assumes "constructed drv (s, h)" and "cached_cam_desc s = Some d"
  shows "wRoiHorStepsDESC d \<noteq> 0" and "wRoiVertStepsDESC d \<noteq> 0"
  using constructed_cam_inv [OF assms(1)] assms(2)
  by (simp_all add: cam_inv_def desc_ok_def)

subsection \<open>What the caching helpers touch\<close>

text \<open>
  \<^verbatim>\<open>_get_sizes\<close>, \<^verbatim>\<open>_get_transfer_parameter\<close>, \<^verbatim>\<open>_data_depth\<close> and \<^verbatim>\<open>_frame_size\<close> change
  nothing but the caches, whether they return or raise; from this, what a successful
  \<^verbatim>\<open>_push_on_queue\<close> and a successful \<^verbatim>\<open>wait_for_frame\<close> do to the queue.
\<close>

lemma caches_differ_refl: "caches_differ s s"
  by (simp add: caches_differ_def)

lemma caches_differ_trans: "caches_differ s t \<Longrightarrow> caches_differ t u \<Longrightarrow> caches_differ s u"
  unfolding caches_differ_def
  by (cases s, cases t, cases u) simp

lemma caches_differ_fields:
  assumes "caches_differ s s'"
  shows "queue s' = queue s" "buffers s' = buffers s" "shutter s' = shutter s"
    "last_buffer s' = last_buffer s" "cached_cam_desc s' = cached_cam_desc s"
    "buf_size s' = buf_size s"
  using assms unfolding caches_differ_def by (cases s, cases s', simp)+

lemma get_sizes_footprint:
  "get_sizes drv (s, h) = (r, (s', h')) \<Longrightarrow> caches_differ s s'"
  by (auto simp: get_sizes_def action_defs Let_def caches_differ_def
      split: if_splits option.splits)

lemma get_transfer_parameter_footprint:
  "get_transfer_parameter drv (s, h) = (r, (s', h')) \<Longrightarrow> caches_differ s s'"
  by (auto simp: get_transfer_parameter_def action_defs caches_differ_def
      split: if_splits option.splits)

lemma data_depth_footprint:
  "data_depth drv (s, h) = (r, (s', h')) \<Longrightarrow> caches_differ s s'"
  by (auto simp: data_depth_def seq_def Let_def ret_def raise_def
      split: prod.splits sum.splits option.splits dest: get_transfer_parameter_footprint)



lemma push_on_queue_success:
  assumes "push_on_queue drv buf (s, h) = (Inr (), (s', h'))"
  shows "\<exists>t. caches_differ s t \<and> s' = t\<lparr>queue := queue s @ [buf]\<rparr>"
  using assms
  by (auto simp: push_on_queue_def seq_Inr_iff set_attr_def plib_def Let_def
      split: if_splits
      dest!: get_sizes_footprint data_depth_footprint)
    (metis caches_differ_fields(1) caches_differ_trans)

lemma wait_for_frame_success:
  assumes "wait_for_frame drv t (s, h) = (Inr True, (s', h'))"
  shows "queue s \<noteq> [] \<and> shutter s' = shutter s \<and> last_buffer s' = Some (hd (queue s)) \<and>
    buffers s' = buffers s \<and>
    queue s' = (if shutter s = Some ''continuous'' then tl (queue s) @ [hd (queue s)]
                else tl (queue s))"
proof -
  from assms have q: "queue s \<noteq> []"
    by (auto simp: wait_for_frame_def seq_Inr_iff get_attr_def raise_def split: if_splits)
  define buf where "buf = hd (queue s)"
  define s1 where "s1 = s\<lparr>last_buffer := Some (hd (queue s)), queue := tl (queue s)\<rparr>"
  from assms q obtain h1 where
    rest: "(if shutter s = Some ''continuous'' then push_on_queue drv buf else ret ()) (s1, h1)
             = (Inr (), (s', h'))"
    unfolding wait_for_frame_def buf_def s1_def
    by (auto simp: seq_Inr_iff get_attr_def set_attr_def raw_call_def plib_def ret_def
        raise_def Let_def split: if_splits prod.splits)
  show ?thesis
  proof (cases "shutter s = Some ''continuous''")
    case True
    with rest have "push_on_queue drv buf (s1, h1) = (Inr (), (s', h'))" by simp
    then obtain u where "caches_differ s1 u" and "s' = u\<lparr>queue := queue s1 @ [buf]\<rparr>"
      by (blast dest: push_on_queue_success)
    with q True show ?thesis
      by (simp add: caches_differ_fields s1_def buf_def)
  next
    case False
    with rest have "s' = s1" by (simp add: ret_def)
    with q False show ?thesis by (simp add: s1_def)
  qed
qed

lemma waits_continuous:
  "shutter s = Some ''continuous'' \<Longrightarrow> waits drv ts (s, h) = Some (s', h') \<Longrightarrow>
   queue s' = rotate (length ts) (queue s) \<and> shutter s' = Some ''continuous''"
proof (induction ts arbitrary: s h)
  case Nil
  then show ?case by simp
next
  case (Cons t ts)
  from Cons.prems(2) obtain s1 h1 where
    w: "wait_for_frame drv t (s, h) = (Inr True, (s1, h1))" and
    r: "waits drv ts (s1, h1) = Some (s', h')"
    by (auto split: prod.splits sum.splits bool.splits if_splits)
  from wait_for_frame_success [OF w] Cons.prems(1)
  have s1: "queue s \<noteq> []" "shutter s1 = Some ''continuous''"
    "queue s1 = tl (queue s) @ [hd (queue s)]"
    by simp_all
  from Cons.IH [OF s1(2) r] have "queue s' = rotate (length ts) (queue s1)"
    and sh: "shutter s' = Some ''continuous''" by simp_all
  moreover from s1(1,3) have "queue s1 = rotate1 (queue s)"
    by (cases "queue s") simp_all
  ultimately have "queue s' = rotate (Suc (length ts)) (queue s)"
    by (simp add: rotate_def funpow_swap1)
  with sh show ?case by simp
qed

subsection \<open>The buffer pool\<close>




subsection \<open>The frame size\<close>

text \<open>
  What \<^verbatim>\<open>_frame_size\<close> returns, and how it compares with the size as the specification
  words it: never larger, and equal when the number of bits is a multiple of 16.
\<close>

lemma depth_map_values: "depth_map drv fmt = Some d \<Longrightarrow> d = 8 \<or> d = 12 \<or> d = 16"
  by (auto simp: depth_map_def split: if_splits)

lemma data_depth_values:
  assumes "data_depth drv \<sigma> = (Inr d, \<sigma>')"
  shows "d = 8 \<or> d = 12 \<or> d = 16"
proof -
  from assms obtain info :: PCO_SC2_CL_TRANSFER_PARAM and \<sigma>1 where
    "(case depth_map drv (DataFormat info AND PCO_CL_DATAFORMAT_MASK drv) of
        None \<Rightarrow> raise (Exception (UnrecognizedDataformat
                  (DataFormat info AND PCO_CL_DATAFORMAT_MASK drv)))
      | Some depth \<Rightarrow> ret depth) \<sigma>1 = (Inr d, \<sigma>')"
    unfolding data_depth_def Let_def by (auto simp: seq_Inr_iff)
  then have "depth_map drv (DataFormat info AND PCO_CL_DATAFORMAT_MASK drv) = Some d"
    by (cases "depth_map drv (DataFormat info AND PCO_CL_DATAFORMAT_MASK drv)")
      (simp_all add: raise_def ret_def)
  then show ?thesis by (rule depth_map_values)
qed

lemma frame_size_value:
  assumes "frame_size drv \<sigma> = (Inr n, \<sigma>')"
  shows "\<exists>w ht mw mh \<sigma>1 d. get_sizes drv \<sigma> = (Inr (w, ht, mw, mh), \<sigma>1) \<and>
    data_depth drv \<sigma>1 = (Inr d, \<sigma>') \<and> (d = 8 \<or> d = 12 \<or> d = 16) \<and>
    n = (w * ht * d) div 16 * 2"
proof -
  from assms obtain w ht mw mh \<sigma>1 d where
    gs: "get_sizes drv \<sigma> = (Inr (w, ht, mw, mh), \<sigma>1)" and
    dd: "data_depth drv \<sigma>1 = (Inr d, \<sigma>')" and
    n: "n = (w * ht * d) div 16 * 2"
    unfolding frame_size_def by (auto simp: seq_Inr_iff ret_def)
  from dd have "d = 8 \<or> d = 12 \<or> d = 16" by (rule data_depth_values)
  with gs dd n show ?thesis by blast
qed

lemma floor_le_spec_frame_size: "(w * ht * d) div 16 * 2 \<le> spec_frame_size w ht d"
proof -
  have "real_of_int ((w * ht * d) div 16) \<le> real_of_int (w * ht * d) / 16"
    by (metis floor_divide_of_int_eq of_int_floor_le of_int_numeral)
  then have "(w * ht * d) div 16 \<le> \<lceil>real_of_int (w * ht * d) / 16\<rceil>"
    by linarith
  then show ?thesis by (simp add: spec_frame_size_def)
qed

lemma spec_frame_size_aligned:
  assumes "16 dvd w * ht * d"
  shows "(w * ht * d) div 16 * 2 = spec_frame_size w ht d"
proof -
  from assms obtain k where k: "w * ht * d = 16 * k" by (auto simp: dvd_def)
  then show ?thesis by (simp add: spec_frame_size_def)
qed

subsection \<open>When the last completed buffer is assigned\<close>




subsection \<open>The cleanup of a drain\<close>

text \<open>
  The two ways the \<^verbatim>\<open>finally\<close> block of \<^verbatim>\<open>get_captured_image\<close> can end; and, when the
  shutter is not continuous, each pass of the drain shortens the queue, so fuel equal to
  the length of the queue is enough for the call to return.
\<close>

lemma cleanup_result:
  assumes "cleanup drv (s, h) = (r, (s', h'))"
  shows "(h' = h @ [SetRecordingState 0] \<and> ret_code drv h' \<noteq> 0 \<and> s' = s \<and>
          r = Inl (Error (Some (ret_code drv h')) (ErrorText (ret_code drv h')))) \<or>
         (h' = h @ [SetRecordingState 0, CancelImages] \<and>
          ret_code drv (h @ [SetRecordingState 0]) = 0 \<and> s' = s\<lparr>queue := []\<rparr>)"
  using assms
  by (auto simp: cleanup_def clear_queue_def action_defs Let_def split: if_splits)

lemma drain_step_queue:
  assumes "drain_step drv timeout copy start fs ht wd arrs (s, h) = (Inr arrs', (s', h'))"
    and "shutter s \<noteq> Some ''continuous''"
  shows "queue s \<noteq> [] \<and> queue s' = tl (queue s) \<and> shutter s' = shutter s"
proof -
  from assms(1) obtain h1 s1 h2 where
    w: "wait_for_frame drv (timeout - (clock_val drv (h @ [Clock]) - start) * 1000) (s, h1)
          = (Inr True, (s1, h2))" and
    a: "\<exists>x. to_array (address (hd (queue s))) fs copy ht wd (s1, h2) = (Inr x, (s', h'))"
    unfolding drain_step_def Let_def
    by (auto simp: seq_Inr_iff get_attr_def raw_call_def raise_def ret_def split: if_splits)
  from a have "s' = s1"
    by (auto simp: to_array_def ret_def raise_def split: if_splits)
  with wait_for_frame_success [OF w] assms(2) show ?thesis by simp
qed

lemma drain_returns:
  "shutter (fst \<sigma>) \<noteq> Some ''continuous'' \<Longrightarrow> length (queue (fst \<sigma>)) \<le> fuel \<Longrightarrow>
   drain drv fuel timeout copy start fs ht wd arrs \<sigma> \<noteq> None"
proof (induction fuel arbitrary: \<sigma> arrs)
  case 0
  then show ?case by simp
next
  case (Suc fuel)
  show ?case
  proof (cases "queue (fst \<sigma>) = []")
    case True
    then show ?thesis by simp
  next
    case False
    obtain s h where \<sigma>: "\<sigma> = (s, h)" by (cases \<sigma>) auto
    obtain r1 s1 h1 where
      step: "drain_step drv timeout copy start fs ht wd arrs (s, h) = (r1, (s1, h1))"
      by (cases "drain_step drv timeout copy start fs ht wd arrs (s, h)") auto
    show ?thesis
    proof (cases r1)
      case (Inl e)
      with False step \<sigma> show ?thesis by simp
    next
      case (Inr arrs')
      with step Suc.prems(1) \<sigma>
      have "queue s1 = tl (queue s)" and "shutter s1 \<noteq> Some ''continuous''"
        by (auto dest: drain_step_queue)
      with Suc.prems(2) False \<sigma>
      have "drain drv fuel timeout copy start fs ht wd arrs' (s1, h1) \<noteq> None"
        by (intro Suc.IH) auto
      with False step Inr \<sigma> show ?thesis by simp
    qed
  qed
qed

lemma get_captured_image_returns:
  assumes "shutter s \<noteq> Some ''continuous''" and "length (queue s) \<le> fuel"
  shows "get_captured_image drv fuel timeout copy (s, h) \<noteq> None"
proof -
  define pre where "pre = seq (get_sizes drv) (\<lambda>(wd, ht, _, _).
           seq (frame_size drv) (\<lambda>fs. ret (wd, ht, fs)))"
  obtain r1 s1 h1 where p: "pre (s, h) = (r1, (s1, h1))" by (cases "pre (s, h)") auto
  have "preserves (\<lambda>\<sigma>. queue (fst \<sigma>) = queue s \<and> shutter (fst \<sigma>) = shutter s) pre"
    unfolding pre_def frame_size_def get_sizes_def data_depth_def get_transfer_parameter_def
      Let_def
    by (intro preserves_intros) auto
  then have "queue (fst (s1, h1)) = queue s \<and> shutter (fst (s1, h1)) = shutter s"
    using _ p by (rule preservesD) simp
  then have same: "queue s1 = queue s" "shutter s1 = shutter s"
    by simp_all
  show ?thesis
  proof (cases r1)
    case (Inl e)
    with p show ?thesis by (simp add: get_captured_image_def pre_def [symmetric])
  next
    case (Inr tr)
    obtain wd ht fs where tr: "tr = (wd, ht, fs)" by (cases tr) auto
    from same assms
    have "drain drv fuel timeout copy (clock_val drv (h1 @ [Clock])) fs ht wd []
            (s1, h1 @ [Clock]) \<noteq> None"
      by (intro drain_returns) auto
    with p Inr tr show ?thesis
      by (auto simp: get_captured_image_def pre_def [symmetric] raw_call_def
          split: prod.splits sum.splits)
  qed
qed

subsection \<open>The simulated drivers at work\<close>

text \<open>Runs of the methods on the simulated drivers, evaluated once and used by the instances below.\<close>

lemmas sim_defs = sim_sdk_def stepped_sdk_def wide_sdk_def packed_sdk_def quiet_sdk_def
  faulty_sdk_def lost_sdk_def is_wait_def last_set_roi_def fresh_cam_def fresh_hist_def
  stepped_cam_def wide_cam_def wide_hist_def
  buf9_def queued_cam_def queued_hist_def buf18_def buf19_def live_cam_def
  WAIT_OBJECT_0_def WAIT_TIMEOUT_def



lemma stepped_init: "init stepped_sdk 0 [] = (Inr stepped_cam, fresh_hist)"
  by (simp add: init_def init_body_def set_ROI_def get_sizes_def get_camera_description_def
      max_width_def max_height_def action_defs blank_def sim_defs Let_def)


lemma lost_init: "init lost_sdk 0 [] = (Inr fresh_cam, fresh_hist)"
  by (simp add: init_def init_body_def set_ROI_def get_sizes_def get_camera_description_def
      max_width_def max_height_def action_defs blank_def sim_defs Let_def)




lemma quiet_allocate_submit:
  "seq (allocate_buffers quiet_sdk (Some 1)) (\<lambda>_. push_on_queue quiet_sdk buf9)
     (fresh_cam, fresh_hist) = (Inr (), (queued_cam, queued_hist))"
  by (simp add: allocate_buffers_def push_on_queue_def clear_queue_def free_buffers_def
      frame_size_def get_sizes_def data_depth_def get_transfer_parameter_def depth_map_def
      action_defs sim_defs Let_def)

lemma lost_allocate_submit:
  "seq (allocate_buffers lost_sdk (Some 1)) (\<lambda>_. push_on_queue lost_sdk buf9)
     (fresh_cam, fresh_hist) = (Inr (), (queued_cam, queued_hist))"
  by (simp add: allocate_buffers_def push_on_queue_def clear_queue_def free_buffers_def
      frame_size_def get_sizes_def data_depth_def get_transfer_parameter_def depth_map_def
      action_defs sim_defs Let_def)


lemma sim_live_wait:
  "shutter s = Some ''continuous'' \<Longrightarrow> queue s = b # bs \<Longrightarrow> \<not> sizes_changed s \<Longrightarrow>
   cached_sizes s = Some (100, 100, 100, 100) \<Longrightarrow> \<not> transfer_param_changed s \<Longrightarrow>
   cached_transfer_param s = Some \<lparr>DataFormat = 0x05\<rparr> \<Longrightarrow>
   wait_for_frame sim_sdk 0 (s, h)
     = (Inr True, (s\<lparr>last_buffer := Some b, queue := bs @ [b]\<rparr>,
          h @ [WaitForSingleObject (event b) 0, GetBufferStatus (num b), ResetEvent (event b),
               AddBufferEx 0 0 (num b) 100 100 16]))"
  by (simp add: wait_for_frame_def push_on_queue_def get_sizes_def data_depth_def
      get_transfer_parameter_def depth_map_def action_defs sim_sdk_def WAIT_OBJECT_0_def
      WAIT_TIMEOUT_def Let_def)



lemma sim_capture:
  "get_captured_image sim_sdk 1 1000 True (queued_cam, queued_hist)
     = Some (Inr (Single \<lparr>img_address = 36864, img_shape = (100, 100), img_copied = True\<rparr>),
         (queued_cam\<lparr>queue := [], last_buffer := Some buf9\<rparr>,
          queued_hist @ [Clock, Clock, WaitForSingleObject 7009 1000, GetBufferStatus 9,
            ResetEvent 7009, SetRecordingState 0, CancelImages]))"
  by (simp add: get_captured_image_def drain_step_def wait_for_frame_def cleanup_def
      clear_queue_def to_array_def frame_size_def get_sizes_def data_depth_def
      get_transfer_parameter_def depth_map_def action_defs sim_defs Let_def)

section \<open>The claims\<close>

text \<open>
  Claim C1, as amended. If the event wait on the head buffer is signalled and
  \<^verbatim>\<open>GetBufferStatus\<close> succeeds with a non-zero driver sub-status, \<^verbatim>\<open>wait_for_frame\<close>
  raises \<^verbatim>\<open>Exception(get_error_text(drv_status))\<close>, the device-supplied message, and the
  object is unchanged: the buffer is still at the head of the queue (the pop on line 502
  is reached "only on success"), and \<^verbatim>\<open>last_buffer\<close> and the pool are as before. The
  claim as stated says that the buffer has been popped; the counterexample shows a
  signalled wait with sub-status 5 after which the queue still holds the buffer.
\<close>

theorem wait_for_frame_driver_status:
  assumes "queue s \<noteq> []"
    and "h1 = h @ [WaitForSingleObject (event (hd (queue s))) \<lfloor>max 0 timeout\<rfloor>]"
    and "wait_ret drv h1 = WAIT_OBJECT_0"
    and "h2 = h1 @ [GetBufferStatus (num (hd (queue s)))]"
    and "ret_code drv h2 = 0"
    and "out_status drv h2 = (dll_status, drv_status)"
    and "drv_status \<noteq> 0"
  shows "wait_for_frame drv timeout (s, h) = (Inl (Exception (ErrorText drv_status)), (s, h2))"
  using assms
  by (simp add: wait_for_frame_def action_defs Let_def WAIT_TIMEOUT_def WAIT_OBJECT_0_def)

theorem wait_for_frame_driver_status_witness:
  "wait_for_frame faulty_sdk 1000 (queued_cam, queued_hist)
     = (Inl (Exception (ErrorText 5)),
        (queued_cam, queued_hist @ [WaitForSingleObject 7009 1000, GetBufferStatus 9]))"
proof -
  have q: "queue queued_cam \<noteq> []" by (simp add: sim_defs)
  have w: "wait_ret faulty_sdk
      (queued_hist @ [WaitForSingleObject (event (hd (queue queued_cam))) \<lfloor>max 0 (1000::real)\<rfloor>])
        = WAIT_OBJECT_0"
    by (simp add: sim_defs)
  have c: "ret_code faulty_sdk
      ((queued_hist @ [WaitForSingleObject (event (hd (queue queued_cam))) \<lfloor>max 0 (1000::real)\<rfloor>])
        @ [GetBufferStatus (num (hd (queue queued_cam)))]) = 0"
    by (simp add: sim_defs)
  have st: "out_status faulty_sdk
      ((queued_hist @ [WaitForSingleObject (event (hd (queue queued_cam))) \<lfloor>max 0 (1000::real)\<rfloor>])
        @ [GetBufferStatus (num (hd (queue queued_cam)))]) = (0, 5)"
    by (simp add: sim_defs)
  have nz: "(5::int) \<noteq> 0" by simp
  from wait_for_frame_driver_status [OF q refl w refl c st nz] show ?thesis
    by (simp add: sim_defs)
qed

theorem wait_for_frame_driver_status_counterexample:
  "fst (wait_for_frame faulty_sdk 1000 (queued_cam, queued_hist))
     = Inl (Exception (ErrorText 5)) \<and>
   queue queued_cam = [buf9] \<and>
   queue (fst (snd (wait_for_frame faulty_sdk 1000 (queued_cam, queued_hist)))) = [buf9]"
  by (simp add: wait_for_frame_def action_defs sim_defs Let_def)

text \<open>
  Claim C2 (the byte size computed at allocation time is
  \<^verbatim>\<open>ceil(width*height*bit_depth/16)*2\<close>, the byte count rounded up to whole 16-bit
  words). \<^verbatim>\<open>_frame_size\<close> computes \<^verbatim>\<open>(width * height * depth) / 16 * 2\<close> with integer
  division, which rounds down: for an image of 10 by 3 pixels of packed 12-bit data
  (360 bits, 45 bytes) it returns 44, where the claimed size is 46. The two sizes agree
  exactly when \<open>width * height * depth\<close> is a multiple of 16
  (\<open>spec_frame_size_aligned\<close>), and the code's size is never the larger
  (\<open>floor_le_spec_frame_size\<close>).
\<close>

theorem frame_size_rounds_down:
  "fst (frame_size packed_sdk (fresh_cam, fresh_hist)) = Inr 44 \<and>
   cached_sizes (fst (snd (frame_size packed_sdk (fresh_cam, fresh_hist))))
     = Some (10, 3, 100, 100) \<and>
   fst (data_depth packed_sdk (fresh_cam, fresh_hist)) = Inr 12 \<and>
   spec_frame_size 10 3 12 = 46"
  by (simp add: frame_size_def get_sizes_def data_depth_def get_transfer_parameter_def
      depth_map_def action_defs sim_defs Let_def spec_frame_size_def)






text \<open>
  Claim C5, as amended. Once the two size queries that precede the \<^verbatim>\<open>try\<close> block have
  succeeded, every return of \<^verbatim>\<open>get_captured_image\<close> (normal completion, a
  \<^verbatim>\<open>TimeoutError\<close> in the drain, or any propagated error) ends with the \<^verbatim>\<open>finally\<close>
  block: \<^verbatim>\<open>SetRecordingState(0)\<close> is called, and if the driver accepts it the queue is
  emptied and \<^verbatim>\<open>CancelImages\<close> is the last call made. If the driver rejects
  \<^verbatim>\<open>SetRecordingState(0)\<close>, that error is what propagates and the queue is not cancelled;
  an error of the size queries themselves propagates before the \<^verbatim>\<open>try\<close> block is
  entered. In one-shot mode the drain ends within as many passes as there are queued
  buffers (\<open>get_captured_image_returns\<close>). The counterexample is a drain on a device
  that is lost during the wait: the call raises, the buffer is still queued and
  \<^verbatim>\<open>CancelImages\<close> is never called.
\<close>

theorem get_captured_image_cleanup:
  assumes "get_captured_image drv fuel timeout copy \<sigma> = Some (r, (s', h'))"
    and "get_sizes drv \<sigma> = (Inr sz, \<sigma>0)"
    and "frame_size drv \<sigma>0 = (Inr fs, \<sigma>1)"
  shows "(\<exists>h3. h' = h3 @ [SetRecordingState 0] \<and> ret_code drv h' \<noteq> 0 \<and>
            r = Inl (Error (Some (ret_code drv h')) (ErrorText (ret_code drv h')))) \<or>
         (\<exists>h3. h' = h3 @ [SetRecordingState 0, CancelImages] \<and>
            ret_code drv (h3 @ [SetRecordingState 0]) = 0 \<and> queue s' = [])"
proof -
  obtain wd ht mw mh where sz: "sz = (wd, ht, mw, mh)" by (cases sz) auto
  have pre: "seq (get_sizes drv) (\<lambda>(wd, ht, _, _).
           seq (frame_size drv) (\<lambda>fs. ret (wd, ht, fs))) \<sigma> = (Inr (wd, ht, fs), \<sigma>1)"
    using assms(2,3) by (simp add: seq_def ret_def sz)
  obtain s1 h1 where \<sigma>1: "\<sigma>1 = (s1, h1)" by (cases \<sigma>1) auto
  from assms(1) obtain r3 s3 h3 where
    fin: "(case cleanup drv (s3, h3) of
             (Inl e, \<sigma>4) \<Rightarrow> Some (Inl e, \<sigma>4)
           | (Inr _, \<sigma>4) \<Rightarrow>
               (case r3 of
                  Inl e \<Rightarrow> Some (Inl e, \<sigma>4)
                | Inr image_arrs \<Rightarrow>
                    Some (Inr (if length image_arrs = 1 then Single (hd image_arrs)
                               else Tuple image_arrs), \<sigma>4))) = Some (r, (s', h'))"
    by (auto simp: get_captured_image_def pre \<sigma>1 raw_call_def split: option.splits)
  obtain r4 s4 h4 where cl: "cleanup drv (s3, h3) = (r4, (s4, h4))"
    by (cases "cleanup drv (s3, h3)") auto
  from fin cl have same: "s' = s4" "h' = h4" and err: "\<And>e. r4 = Inl e \<Longrightarrow> r = Inl e"
    by (auto split: sum.splits)
  from cleanup_result [OF cl] same err show ?thesis by auto
qed

theorem get_captured_image_cleanup_witness:
  "get_captured_image sim_sdk 1 1000 True (queued_cam, queued_hist)
     = Some (Inr (Single \<lparr>img_address = 36864, img_shape = (100, 100), img_copied = True\<rparr>),
         (queued_cam\<lparr>queue := [], last_buffer := Some buf9\<rparr>,
          queued_hist @ [Clock, Clock, WaitForSingleObject 7009 1000, GetBufferStatus 9,
            ResetEvent 7009, SetRecordingState 0, CancelImages])) \<and>
   queue (queued_cam\<lparr>queue := [], last_buffer := Some buf9\<rparr>) = [] \<and>
   ret_code sim_sdk (queued_hist @ [Clock, Clock, WaitForSingleObject 7009 1000,
     GetBufferStatus 9, ResetEvent 7009, SetRecordingState 0]) = 0"
proof -
  have gs: "get_sizes sim_sdk (queued_cam, queued_hist)
      = (Inr (100, 100, 100, 100), (queued_cam, queued_hist))"
    by (simp add: get_sizes_def action_defs sim_defs Let_def)
  have fs: "frame_size sim_sdk (queued_cam, queued_hist) = (Inr 20000, (queued_cam, queued_hist))"
    by (simp add: frame_size_def get_sizes_def data_depth_def get_transfer_parameter_def
        depth_map_def action_defs sim_defs Let_def)
  from get_captured_image_cleanup [OF sim_capture gs fs] sim_capture show ?thesis
    by (simp add: sim_defs)
qed

theorem get_captured_image_cleanup_counterexample:
  "init lost_sdk 0 [] = (Inr fresh_cam, fresh_hist) \<and>
   seq (allocate_buffers lost_sdk (Some 1)) (\<lambda>_. push_on_queue lost_sdk buf9)
     (fresh_cam, fresh_hist) = (Inr (), (queued_cam, queued_hist)) \<and>
   get_captured_image lost_sdk 1 1000 True (queued_cam, queued_hist)
     = Some (Inl (Error (Some 7) (ErrorText 7)),
         (queued_cam,
          queued_hist @ [Clock, Clock, WaitForSingleObject 7009 1000, SetRecordingState 0])) \<and>
   queue queued_cam = [buf9]"
  by (simp add: lost_init lost_allocate_submit)
    (simp add: get_captured_image_def drain_step_def wait_for_frame_def cleanup_def
      clear_queue_def to_array_def frame_size_def get_sizes_def data_depth_def
      get_transfer_parameter_def depth_map_def action_defs sim_defs Let_def)

text \<open>
  Claim C6. In continuous mode, after \<open>N\<close> consecutive calls of \<^verbatim>\<open>wait_for_frame\<close> that
  each return \<^verbatim>\<open>True\<close>, the queue is the queue before rotated \<open>N\<close> times (each call
  pops the head and appends the same buffer at the tail), so its length is the same.
\<close>

theorem continuous_waits_keep_queue_length:
  assumes "shutter s = Some ''continuous''"
    and "waits drv timeouts (s, h) = Some (s', h')"
  shows "queue s' = rotate (length timeouts) (queue s) \<and> length (queue s') = length (queue s)"
  using waits_continuous [OF assms] by simp

theorem continuous_waits_keep_queue_length_witness:
  "shutter live_cam = Some ''continuous'' \<and>
   waits sim_sdk [0, 0, 0] (live_cam, [])
     = Some (live_cam\<lparr>last_buffer := Some buf18, queue := [buf19, buf18]\<rparr>,
         [WaitForSingleObject 7018 0, GetBufferStatus 18, ResetEvent 7018,
          AddBufferEx 0 0 18 100 100 16,
          WaitForSingleObject 7019 0, GetBufferStatus 19, ResetEvent 7019,
          AddBufferEx 0 0 19 100 100 16,
          WaitForSingleObject 7018 0, GetBufferStatus 18, ResetEvent 7018,
          AddBufferEx 0 0 18 100 100 16]) \<and>
   queue (live_cam\<lparr>last_buffer := Some buf18, queue := [buf19, buf18]\<rparr>)
     = rotate 3 (queue live_cam) \<and>
   length (queue (live_cam\<lparr>last_buffer := Some buf18, queue := [buf19, buf18]\<rparr>)) = 2"
proof -
  have sh: "shutter live_cam = Some ''continuous''" by (simp add: sim_defs)
  have w: "waits sim_sdk [0, 0, 0] (live_cam, [])
     = Some (live_cam\<lparr>last_buffer := Some buf18, queue := [buf19, buf18]\<rparr>,
         [WaitForSingleObject 7018 0, GetBufferStatus 18, ResetEvent 7018,
          AddBufferEx 0 0 18 100 100 16,
          WaitForSingleObject 7019 0, GetBufferStatus 19, ResetEvent 7019,
          AddBufferEx 0 0 19 100 100 16,
          WaitForSingleObject 7018 0, GetBufferStatus 18, ResetEvent 7018,
          AddBufferEx 0 0 18 100 100 16])"
    by (simp add: sim_live_wait live_cam_def queued_cam_def fresh_cam_def buf18_def buf19_def)
  from continuous_waits_keep_queue_length [OF sh w] sh w show ?thesis
    by (simp add: live_cam_def numeral_3_eq_3)
qed

text \<open>
  Claim C7. For every timeout (positive, zero or negative), \<^verbatim>\<open>wait_for_frame\<close> on an
  empty queue raises \<^verbatim>\<open>Exception("No queued buffers!")\<close>, the specification's
  \<^verbatim>\<open>NoBuffersQueued\<close>. The object is unchanged and so is the history: neither the driver
  nor the wait primitive of the operating system is called.
\<close>

theorem wait_for_frame_empty_queue:
  assumes "queue s = []"
  shows "wait_for_frame drv timeout (s, h) = (Inl (Exception NoQueuedBuffers), (s, h))"
  using assms by (simp add: wait_for_frame_def seq_def get_attr_def raise_def)

theorem wait_for_frame_empty_queue_witness:
  "queue fresh_cam = [] \<and>
   wait_for_frame sim_sdk 1000 (fresh_cam, fresh_hist)
     = (Inl (Exception NoQueuedBuffers), (fresh_cam, fresh_hist)) \<and>
   wait_for_frame sim_sdk 0 (fresh_cam, fresh_hist)
     = (Inl (Exception NoQueuedBuffers), (fresh_cam, fresh_hist)) \<and>
   wait_for_frame sim_sdk (- 5) (fresh_cam, fresh_hist)
     = (Inl (Exception NoQueuedBuffers), (fresh_cam, fresh_hist))"
proof -
  have q: "queue fresh_cam = []" by (simp add: fresh_cam_def)
  show ?thesis
    using q wait_for_frame_empty_queue [OF q, of sim_sdk 1000 fresh_hist]
      wait_for_frame_empty_queue [OF q, of sim_sdk 0 fresh_hist]
      wait_for_frame_empty_queue [OF q, of sim_sdk "- 5" fresh_hist]
    by simp
qed

text \<open>
  Claim C8. If the event wait on the head buffer answers \<^verbatim>\<open>WAIT_TIMEOUT\<close>,
  \<^verbatim>\<open>wait_for_frame\<close> returns \<^verbatim>\<open>False\<close> and leaves the whole object as it was, the
  queue and \<^verbatim>\<open>last_buffer\<close> included; the wait is the only call made. The witness is the
  scenario of the claim: one buffer allocated and submitted, then a wait with timeout 0
  on a device that has no frame ready; the queue still has one entry.
\<close>

theorem wait_for_frame_timeout:
  assumes "queue s \<noteq> []"
    and "wait_ret drv (h @ [WaitForSingleObject (event (hd (queue s))) \<lfloor>max 0 timeout\<rfloor>])
           = WAIT_TIMEOUT"
  shows "wait_for_frame drv timeout (s, h)
           = (Inr False, (s, h @ [WaitForSingleObject (event (hd (queue s))) \<lfloor>max 0 timeout\<rfloor>]))"
  using assms
  by (simp add: wait_for_frame_def action_defs Let_def WAIT_TIMEOUT_def WAIT_OBJECT_0_def)

theorem wait_for_frame_timeout_witness:
  "seq (allocate_buffers quiet_sdk (Some 1)) (\<lambda>_. push_on_queue quiet_sdk buf9)
     (fresh_cam, fresh_hist) = (Inr (), (queued_cam, queued_hist)) \<and>
   wait_for_frame quiet_sdk 0 (queued_cam, queued_hist)
     = (Inr False, (queued_cam, queued_hist @ [WaitForSingleObject 7009 0])) \<and>
   length (queue queued_cam) = 1"
proof -
  have q: "queue queued_cam \<noteq> []" by (simp add: sim_defs)
  have w: "wait_ret quiet_sdk
      (queued_hist @ [WaitForSingleObject (event (hd (queue queued_cam))) \<lfloor>max 0 (0::real)\<rfloor>])
        = WAIT_TIMEOUT"
    by (simp add: quiet_sdk_def)
  from wait_for_frame_timeout [OF q w] quiet_allocate_submit show ?thesis
    by (simp add: sim_defs)
qed

text \<open>
  Claim C9. On a constructed camera, a ROI of which a coordinate is not a multiple of the
  device's step (\<open>x0\<close> or \<open>x1\<close> of the horizontal step, \<open>y0\<close> or \<open>y1\<close> of the vertical
  step) makes \<^verbatim>\<open>_set_ROI\<close> raise \<^verbatim>\<open>Error("ROI x-coordinates must be a multiple of ...")\<close>,
  or the same for y, the specification's \<^verbatim>\<open>InvalidGeometry\<close>. The object is unchanged
  (cached sizes and dirty flag included) and the history is unchanged: no device call is
  made. The camera description is cached and its steps are non-zero on every constructed
  camera (\<open>constructed_cam_inv\<close>).
\<close>

theorem set_ROI_step_violation:
  assumes "constructed drv (s, h)"
    and "cached_cam_desc s = Some desc"
    and "\<not> wRoiHorStepsDESC desc dvd x0 \<or> \<not> wRoiHorStepsDESC desc dvd x1 \<or>
         \<not> wRoiVertStepsDESC desc dvd y0 \<or> \<not> wRoiVertStepsDESC desc dvd y1"
  shows "set_ROI drv x0 y0 x1 y1 (s, h) =
    (Inl (Error None
       (if \<not> wRoiHorStepsDESC desc dvd x0 \<or> \<not> wRoiHorStepsDESC desc dvd x1
        then RoiXStep (wRoiHorStepsDESC desc) else RoiYStep (wRoiVertStepsDESC desc))),
     (s, h))"
proof -
  from constructed_steps [OF assms(1,2)]
  have "wRoiHorStepsDESC desc \<noteq> 0" and "wRoiVertStepsDESC desc \<noteq> 0" .
  with assms(2,3) show ?thesis
    unfolding set_ROI_def Let_def
    by (auto simp: seq_def get_camera_description_cached raise_def dvd_eq_mod_eq_0)
qed

theorem set_ROI_step_violation_witness:
  "init stepped_sdk 0 [] = (Inr stepped_cam, fresh_hist) \<and>
   set_ROI stepped_sdk 1 0 100 100 (stepped_cam, fresh_hist)
     = (Inl (Error None (RoiXStep 2)), (stepped_cam, fresh_hist)) \<and>
   set_ROI stepped_sdk 0 0 100 101 (stepped_cam, fresh_hist)
     = (Inl (Error None (RoiYStep 2)), (stepped_cam, fresh_hist))"
proof -
  have c: "constructed stepped_sdk (stepped_cam, fresh_hist)"
    using stepped_init by (rule constructed.fresh)
  have d: "cached_cam_desc stepped_cam = Some \<lparr>wRoiHorStepsDESC = 2, wRoiVertStepsDESC = 2\<rparr>"
    by (simp add: sim_defs)
  have x: "\<not> wRoiHorStepsDESC \<lparr>wRoiHorStepsDESC = 2, wRoiVertStepsDESC = 2\<rparr> dvd (1::int) \<or>
      \<not> wRoiHorStepsDESC \<lparr>wRoiHorStepsDESC = 2, wRoiVertStepsDESC = 2\<rparr> dvd (100::int) \<or>
      \<not> wRoiVertStepsDESC \<lparr>wRoiHorStepsDESC = 2, wRoiVertStepsDESC = 2\<rparr> dvd (0::int) \<or>
      \<not> wRoiVertStepsDESC \<lparr>wRoiHorStepsDESC = 2, wRoiVertStepsDESC = 2\<rparr> dvd (100::int)"
    by simp
  have y: "\<not> wRoiHorStepsDESC \<lparr>wRoiHorStepsDESC = 2, wRoiVertStepsDESC = 2\<rparr> dvd (0::int) \<or>
      \<not> wRoiHorStepsDESC \<lparr>wRoiHorStepsDESC = 2, wRoiVertStepsDESC = 2\<rparr> dvd (100::int) \<or>
      \<not> wRoiVertStepsDESC \<lparr>wRoiHorStepsDESC = 2, wRoiVertStepsDESC = 2\<rparr> dvd (0::int) \<or>
      \<not> wRoiVertStepsDESC \<lparr>wRoiHorStepsDESC = 2, wRoiVertStepsDESC = 2\<rparr> dvd (101::int)"
    by simp
  from set_ROI_step_violation [OF c d x] set_ROI_step_violation [OF c d y] stepped_init
  show ?thesis by simp
qed



end
